theory Spec2Isabelle
  imports Main "HOL-Library.Sublist"
begin

section \<open>Python values, strings and exceptions\<close>

text \<open>
  A Python \<open>str\<close> is a sequence of Unicode code points; a code point is modelled as a
  natural number, so that \<open>chr(0xE9)\<close> is \<open>0xE9\<close> and a character beyond Latin-1 is one
  element, as it is for Python's \<open>len\<close>.  ASCII literals are written \<open>u ''abc''\<close>.
\<close>

type_synonym ustr = "nat list"

abbreviation u :: "string \<Rightarrow> ustr" where
  "u s \<equiv> map of_char s"

text \<open>The values a caller may pass; \<open>isinstance(text, str)\<close> holds for \<open>PyStr\<close> only.\<close>

datatype pyobj =
    PyNone
  | PyBool bool
  | PyInt int
  | PyBytes "nat list"
  | PyList "pyobj list"
  | PyStr ustr

fun isinstance_str :: "pyobj \<Rightarrow> bool" where
  "isinstance_str (PyStr s) = True"
| "isinstance_str other = False"

text \<open>The exceptions the library calls of the module can raise.\<close>

datatype pyexc = ValueError | UnicodeDecodeError | OverflowError | IndexError

section \<open>The library functions the module calls\<close>

subsection \<open>Whitespace, \<open>strip\<close>, \<open>split\<close>, \<open>join\<close>, \<open>replace\<close>\<close>

text \<open>
  The code points for which \<open>str.isspace\<close> holds; \<open>str.strip()\<close> and \<open>str.split()\<close>
  without arguments use the same set.
\<close>

definition py_isspace :: "nat \<Rightarrow> bool" where
  "py_isspace c \<longleftrightarrow>
     (0x09 \<le> c \<and> c \<le> 0x0D) \<or> (0x1C \<le> c \<and> c \<le> 0x20) \<or> c = 0x85 \<or> c = 0xA0 \<or>
     c = 0x1680 \<or> (0x2000 \<le> c \<and> c \<le> 0x200A) \<or> c = 0x2028 \<or> c = 0x2029 \<or>
     c = 0x202F \<or> c = 0x205F \<or> c = 0x3000"

definition py_strip :: "ustr \<Rightarrow> ustr" where
  "py_strip s = rev (dropWhile py_isspace (rev (dropWhile py_isspace s)))"

text \<open>
  \<open>text.split()\<close>: scan left to right, \<open>cur\<close> is the token being read; a whitespace
  character closes it, and empty tokens are never produced.
\<close>

fun split_scan :: "ustr \<Rightarrow> ustr \<Rightarrow> ustr list" where
  "split_scan cur [] = (if cur = [] then [] else [cur])"
| "split_scan cur (c # cs) =
     (if py_isspace c then (if cur = [] then split_scan [] cs else cur # split_scan [] cs)
      else split_scan (cur @ [c]) cs)"

definition py_split :: "ustr \<Rightarrow> ustr list" where
  "py_split s = split_scan [] s"

fun py_join :: "ustr \<Rightarrow> ustr list \<Rightarrow> ustr" where
  "py_join sep [] = []"
| "py_join sep [x] = x"
| "py_join sep (x # y # ys) = x @ sep @ py_join sep (y # ys)"

text \<open>
  \<open>text.replace(old, new)\<close> for a non-empty \<open>old\<close>: leftmost, non-overlapping occurrences.
  After a match at \<open>c # cs\<close> the scan resumes \<open>length old\<close> characters on, that is
  \<open>length old - 1\<close> characters into \<open>cs\<close>.  For the empty \<open>old\<close> Python puts \<open>new\<close>
  before every character and at the end.
\<close>

fun replace_scan :: "ustr \<Rightarrow> ustr \<Rightarrow> ustr \<Rightarrow> ustr" where
  "replace_scan old new [] = []"
| "replace_scan old new (c # cs) =
     (if prefix old (c # cs) then new @ replace_scan old new (drop (length old - 1) cs)
      else c # replace_scan old new cs)"

definition py_replace :: "ustr \<Rightarrow> ustr \<Rightarrow> ustr \<Rightarrow> ustr" where
  "py_replace old new text =
     (if old = [] then new @ concat (map (\<lambda>c. c # new) text) else replace_scan old new text)"

subsection \<open>\<open>int(s, 16)\<close>, \<open>bytes\<close>, \<open>decode("utf-8")\<close>, \<open>chr\<close>\<close>

definition is_hexdigit :: "nat \<Rightarrow> bool" where
  "is_hexdigit c \<longleftrightarrow>
     (0x30 \<le> c \<and> c \<le> 0x39) \<or> (0x61 \<le> c \<and> c \<le> 0x66) \<or> (0x41 \<le> c \<and> c \<le> 0x46)"

definition hex_digit_value :: "nat \<Rightarrow> int option" where
  "hex_digit_value c =
     (if 0x30 \<le> c \<and> c \<le> 0x39 then Some (int c - 0x30)
      else if 0x61 \<le> c \<and> c \<le> 0x66 then Some (int c - 0x61 + 10)
      else if 0x41 \<le> c \<and> c \<le> 0x46 then Some (int c - 0x41 + 10)
      else None)"

fun parse_hex :: "int \<Rightarrow> ustr \<Rightarrow> int option" where
  "parse_hex acc [] = Some acc"
| "parse_hex acc (c # cs) =
     (case hex_digit_value c of None \<Rightarrow> None | Some d \<Rightarrow> parse_hex (16 * acc + d) cs)"

text \<open>
  \<open>int(s, 16)\<close> on a string of hexadecimal digits; anything else is a \<open>ValueError\<close>.
  (Python also accepts a sign, a \<open>0x\<close> prefix, underscores and surrounding whitespace;
  the module only passes groups of two hexadecimal digits.)
\<close>

definition py_int_base16 :: "ustr \<Rightarrow> pyexc + int" where
  "py_int_base16 s =
     (if s = [] then Inl ValueError
      else case parse_hex 0 s of None \<Rightarrow> Inl ValueError | Some v \<Rightarrow> Inr v)"

text \<open>\<open>bytes(xs)\<close> of a list of ints: every element must be in \<open>range(256)\<close>.\<close>

definition py_bytes :: "int list \<Rightarrow> pyexc + nat list" where
  "py_bytes xs =
     (if list_all (\<lambda>x. 0 \<le> x \<and> x < 256) xs then Inr (map nat xs) else Inl ValueError)"

definition is_cont :: "nat \<Rightarrow> bool" where
  "is_cont b \<longleftrightarrow> 0x80 \<le> b \<and> b \<le> 0xBF"

text \<open>
  Strict UTF-8: shortest forms only (a lead byte \<open>E0\<close> needs a second byte from
  \<open>A0\<close>, \<open>F0\<close> one from \<open>90\<close>), no surrogates (after \<open>ED\<close> the second byte is at
  most \<open>9F\<close>), nothing above \<open>U+10FFFF\<close> (after \<open>F4\<close> at most \<open>8F\<close>).  \<open>None\<close> is
  Python's \<open>UnicodeDecodeError\<close>.
\<close>

fun utf8_decode :: "nat list \<Rightarrow> ustr option" where
  "utf8_decode [] = Some []"
| "utf8_decode (b0 # bs) =
     (if b0 < 0x80 then map_option ((#) b0) (utf8_decode bs)
      else if 0xC2 \<le> b0 \<and> b0 \<le> 0xDF then
        (case bs of
           b1 # r \<Rightarrow>
             if is_cont b1
             then map_option ((#) ((b0 - 0xC0) * 64 + (b1 - 0x80))) (utf8_decode r)
             else None
         | _ \<Rightarrow> None)
      else if 0xE0 \<le> b0 \<and> b0 \<le> 0xEF then
        (case bs of
           b1 # b2 # r \<Rightarrow>
             if (if b0 = 0xE0 then 0xA0 else 0x80) \<le> b1 \<and> b1 \<le> (if b0 = 0xED then 0x9F else 0xBF)
                \<and> is_cont b2
             then map_option
                    ((#) ((b0 - 0xE0) * 4096 + (b1 - 0x80) * 64 + (b2 - 0x80))) (utf8_decode r)
             else None
         | _ \<Rightarrow> None)
      else if 0xF0 \<le> b0 \<and> b0 \<le> 0xF4 then
        (case bs of
           b1 # b2 # b3 # r \<Rightarrow>
             if (if b0 = 0xF0 then 0x90 else 0x80) \<le> b1 \<and> b1 \<le> (if b0 = 0xF4 then 0x8F else 0xBF)
                \<and> is_cont b2 \<and> is_cont b3
             then map_option
                    ((#) ((b0 - 0xF0) * 262144 + (b1 - 0x80) * 4096 + (b2 - 0x80) * 64
                          + (b3 - 0x80)))
                    (utf8_decode r)
             else None
         | _ \<Rightarrow> None)
      else None)"

definition py_decode_utf8 :: "nat list \<Rightarrow> pyexc + ustr" where
  "py_decode_utf8 bs = (case utf8_decode bs of None \<Rightarrow> Inl UnicodeDecodeError | Some s \<Rightarrow> Inr s)"

text \<open>
  \<open>chr(i)\<close>: a \<open>ValueError\<close> outside \<open>range(0x110000)\<close>, an \<open>OverflowError\<close> when the
  argument does not fit a C int.
\<close>

definition py_chr :: "int \<Rightarrow> pyexc + nat" where
  "py_chr i =
     (if 0 \<le> i \<and> i < 0x110000 then Inr (nat i)
      else if - 2147483648 \<le> i \<and> i \<le> 2147483647 then Inl ValueError
      else Inl OverflowError)"

subsection \<open>Regular expressions\<close>

text \<open>
  A match object: \<open>group(0)\<close> and the tuple \<open>groups()\<close>; \<open>group(i)\<close> for
  \<open>1 \<le> i \<le> len(groups())\<close> is \<open>groups ! (i - 1)\<close>, and an \<open>IndexError\<close> beyond.
\<close>

record re_match =
  group0 :: ustr
  groups :: "ustr list"

definition match_group :: "re_match \<Rightarrow> nat \<Rightarrow> pyexc + ustr" where
  "match_group m i =
     (if i = 0 then Inr (group0 m)
      else if i \<le> length (groups m) then Inr (groups m ! (i - 1))
      else Inl IndexError)"

text \<open>
  The pattern \<open>(\\x([0-9a-fA-F]{2})){n}\<close> written out \<open>n\<close> times, as the module's three
  patterns are (n = 3, 2, 1): a literal backslash, a literal \<open>x\<close>, two hexadecimal digits
  forming one group.  \<open>match_hex_groups n text\<close> matches at the start of \<open>text\<close>.
\<close>

fun match_hex_groups :: "nat \<Rightarrow> ustr \<Rightarrow> ustr list option" where
  "match_hex_groups 0 text = Some []"
| "match_hex_groups (Suc n) (b # x # h1 # h2 # rest) =
     (if b = 0x5C \<and> x = 0x78 \<and> is_hexdigit h1 \<and> is_hexdigit h2
      then map_option ((#) [h1, h2]) (match_hex_groups n rest)
      else None)"
| "match_hex_groups (Suc n) text = None"

definition match_at :: "nat \<Rightarrow> ustr \<Rightarrow> re_match option" where
  "match_at n text =
     (case match_hex_groups n text of
        None \<Rightarrow> None
      | Some gs \<Rightarrow> Some \<lparr>group0 = take (4 * n) text, groups = gs\<rparr>)"

text \<open>
  \<open>re.sub(pattern, repl, text)\<close> with a callable \<open>repl\<close>: leftmost non-overlapping
  matches, each replaced by what \<open>repl\<close> returns; an exception of \<open>repl\<close> propagates.
  A match of \<open>n\<close> groups is \<open>4 * n\<close> characters long.
\<close>

fun re_sub_hex :: "nat \<Rightarrow> (re_match \<Rightarrow> pyexc + ustr) \<Rightarrow> ustr \<Rightarrow> pyexc + ustr" where
  "re_sub_hex n repl [] = Inr []"
| "re_sub_hex n repl (c # cs) =
     (case match_at n (c # cs) of
        None \<Rightarrow>
          (case re_sub_hex n repl cs of Inl e \<Rightarrow> Inl e | Inr t \<Rightarrow> Inr (c # t))
      | Some m \<Rightarrow>
          (case repl m of
             Inl e \<Rightarrow> Inl e
           | Inr r \<Rightarrow>
               (case re_sub_hex n repl (drop (4 * n - 1) cs) of
                  Inl e \<Rightarrow> Inl e
                | Inr t \<Rightarrow> Inr (r @ t))))"

text \<open>
  \<open>re.sub(r"\\s+", repl, text)\<close> with a string \<open>repl\<close>.  In a raw string the pattern is
  the four characters backslash, backslash, \<open>s\<close>, \<open>+\<close>: an escaped (literal) backslash
  followed by one or more letters \<open>s\<close>, matched greedily.
\<close>

function re_sub_backslash_s :: "ustr \<Rightarrow> ustr \<Rightarrow> ustr" where
  "re_sub_backslash_s repl [] = []"
| "re_sub_backslash_s repl (c # cs) =
     (if c = 0x5C \<and> cs \<noteq> [] \<and> hd cs = 0x73
      then repl @ re_sub_backslash_s repl (dropWhile (\<lambda>d. d = 0x73) cs)
      else c # re_sub_backslash_s repl cs)"
  by pat_completeness auto
termination
  by (relation "measure (\<lambda>(repl, t). length t)")
     (auto simp: length_dropWhile_le less_Suc_eq_le)

subsection \<open>The Unicode character database\<close>

text \<open>
  The tables behind \<open>unicodedata\<close> and \<open>str.lower\<close> are not part of the module; the model
  takes them as a parameter.  \<open>ucd_decomposition\<close> is the full canonical decomposition
  of one code point (the code point itself when it has none), \<open>ucd_combining\<close> is
  \<open>unicodedata.combining\<close>, \<open>ucd_category\<close> is \<open>unicodedata.category\<close>, and
  \<open>str_lower\<close> is \<open>str.lower\<close>.
\<close>

record ucd =
  ucd_decomposition :: "nat \<Rightarrow> ustr"
  ucd_combining :: "nat \<Rightarrow> nat"
  ucd_category :: "nat \<Rightarrow> string"
  str_lower :: "ustr \<Rightarrow> ustr"

text \<open>
  \<open>unicodedata.normalize("NFD", text)\<close>: decompose every character, then put every run
  of characters with a non-zero combining class into canonical order, which exchanges
  neighbours \<open>a, b\<close> with \<open>combining a > combining b > 0\<close> until there are none.
\<close>

fun insert_ordered :: "ucd \<Rightarrow> nat \<Rightarrow> ustr \<Rightarrow> ustr" where
  "insert_ordered U c [] = [c]"
| "insert_ordered U c (x # xs) =
     (if ucd_combining U x \<noteq> 0 \<and> ucd_combining U x < ucd_combining U c
      then x # insert_ordered U c xs
      else c # x # xs)"

fun canonical_order :: "ucd \<Rightarrow> ustr \<Rightarrow> ustr" where
  "canonical_order U [] = []"
| "canonical_order U (c # cs) = insert_ordered U c (canonical_order U cs)"

definition normalize_NFD :: "ucd \<Rightarrow> ustr \<Rightarrow> ustr" where
  "normalize_NFD U text = canonical_order U (concat (map (ucd_decomposition U) text))"

section \<open>The module \<open>name_utils\<close>\<close>

subsection \<open>\<open>_decode_literal_hex_sequences\<close>\<close>

text \<open>
  The loop of \<open>decode_sequence\<close> over \<open>match.group(i)\<close> for \<open>i\<close> from 1 to
  \<open>len(match.groups())\<close>, that is over the elements of \<open>groups\<close> in order, collecting
  \<open>hex_bytes\<close>; the first exception of \<open>int\<close> ends it.
\<close>

fun collect_hex_bytes :: "ustr list \<Rightarrow> pyexc + int list" where
  "collect_hex_bytes [] = Inr []"
| "collect_hex_bytes (g # gs) =
     (case py_int_base16 g of
        Inl e \<Rightarrow> Inl e
      | Inr v \<Rightarrow> (case collect_hex_bytes gs of Inl e \<Rightarrow> Inl e | Inr vs \<Rightarrow> Inr (v # vs)))"

text \<open>
  \<open>decode_sequence\<close>: a \<open>ValueError\<close> of \<open>int\<close> and a \<open>UnicodeDecodeError\<close> or
  \<open>ValueError\<close> of \<open>bytes(...).decode\<close> are caught and give \<open>match.group(0)\<close>; any other
  exception would propagate.
\<close>

definition decode_sequence :: "re_match \<Rightarrow> pyexc + ustr" where
  "decode_sequence m =
     (case collect_hex_bytes (groups m) of
        Inl ValueError \<Rightarrow> Inr (group0 m)
      | Inl e \<Rightarrow> Inl e
      | Inr hex_bytes \<Rightarrow>
          (case (case py_bytes hex_bytes of Inl e \<Rightarrow> Inl e | Inr bs \<Rightarrow> py_decode_utf8 bs) of
             Inl UnicodeDecodeError \<Rightarrow> Inr (group0 m)
           | Inl ValueError \<Rightarrow> Inr (group0 m)
           | Inl e \<Rightarrow> Inl e
           | Inr s \<Rightarrow> Inr s))"

text \<open>
  \<open>decode_single\<close>: \<open>chr(int(match.group(1), 16))\<close>, catching \<open>ValueError\<close> and
  \<open>OverflowError\<close>; any other exception would propagate.
\<close>

definition decode_single :: "re_match \<Rightarrow> pyexc + ustr" where
  "decode_single m =
     (case (case match_group m 1 of
              Inl e \<Rightarrow> Inl e
            | Inr g \<Rightarrow> (case py_int_base16 g of Inl e \<Rightarrow> Inl e | Inr v \<Rightarrow> py_chr v)) of
        Inl ValueError \<Rightarrow> Inr (group0 m)
      | Inl OverflowError \<Rightarrow> Inr (group0 m)
      | Inl e \<Rightarrow> Inl e
      | Inr c \<Rightarrow> Inr [c])"

definition decode_literal_hex_sequences :: "pyobj \<Rightarrow> pyexc + ustr" where
  "decode_literal_hex_sequences text =
     (case text of
        PyStr s \<Rightarrow>
          (case re_sub_hex 3 decode_sequence s of
             Inl e \<Rightarrow> Inl e
           | Inr t1 \<Rightarrow>
               (case re_sub_hex 2 decode_sequence t1 of
                  Inl e \<Rightarrow> Inl e
                | Inr t2 \<Rightarrow> re_sub_hex 1 decode_single t2))
      | _ \<Rightarrow> Inr [])"

subsection \<open>\<open>_strip_accents\<close>\<close>

text \<open>The generator expression yields one-character strings, which \<open>"".join\<close> concatenates.\<close>

definition strip_accents :: "ucd \<Rightarrow> pyobj \<Rightarrow> ustr" where
  "strip_accents U text =
     (case text of
        PyStr s \<Rightarrow>
          (let normalized = normalize_NFD U s
           in py_join [] (map (\<lambda>ch. [ch]) (filter (\<lambda>ch. ucd_category U ch \<noteq> ''Mn'') normalized)))
      | _ \<Rightarrow> [])"

subsection \<open>\<open>_strip_suffixes\<close>\<close>

definition suffix_tokens :: "ustr set" where
  "suffix_tokens = {u ''jr'', u ''sr'', u ''ii'', u ''iii'', u ''iv'', u ''v''}"

definition strip_suffixes :: "pyobj \<Rightarrow> ustr" where
  "strip_suffixes text =
     (case text of
        PyStr s \<Rightarrow>
          (let tokens = filter (\<lambda>tok. tok \<notin> suffix_tokens) (py_split s)
           in py_join [0x20] tokens)
      | _ \<Rightarrow> [])"

subsection \<open>\<open>normalize_name_for_blocking\<close>\<close>

text \<open>
  The steps in the order of the source; every \<open>t\<close> below is the value of the variable
  \<open>text\<close> after one assignment.  An exception of the decoder would propagate.
\<close>

definition normalize_name_for_blocking :: "ucd \<Rightarrow> pyobj \<Rightarrow> pyexc + ustr" where
  "normalize_name_for_blocking U text =
     (if \<not> isinstance_str text then Inr []
      else
        case decode_literal_hex_sequences text of
          Inl e \<Rightarrow> Inl e
        | Inr t1 \<Rightarrow>
            (let t2 = strip_accents U (PyStr t1);
                 t3 = py_strip (str_lower U t2);
                 t4 = py_replace [0x5C, 0x20] [0x20] t3;
                 t5 = py_replace [0x5C] [0x20] t4;
                 t6 = py_replace [0x2E] [] t5;
                 t7 = py_replace [0x2C] [] t6;
                 t8 = py_replace [0x2D] [0x20] t7;
                 t9 = py_replace [0x27] [] t8;
                 t10 = py_strip (re_sub_backslash_s [0x20] t9);
                 t11 = strip_suffixes (PyStr t10);
                 t12 = py_strip (re_sub_backslash_s [0x20] t11)
             in Inr t12))"

section \<open>An excerpt of the Unicode character database\<close>

text \<open>
  The entries of the Unicode character database (version 14, as in CPython 3.11) for
  \<open>U+0000\<close>--\<open>U+00FF\<close>, the combining diacritical marks \<open>U+0300\<close>--\<open>U+036F\<close>,
  \<open>U+03D2\<close> (Greek upsilon with hook symbol) and the musical symbols \<open>U+1D165\<close>
  (combining stem) and \<open>U+1D16D\<close> (combining augmentation dot).  Every concrete
  evaluation below stays inside this range; outside it the excerpt answers with no
  decomposition, class 0, category \<open>Cn\<close> and no lowercase mapping.
\<close>

fun lookup_range :: "(nat \<times> nat \<times> 'a) list \<Rightarrow> 'a \<Rightarrow> nat \<Rightarrow> 'a" where
  "lookup_range [] d c = d"
| "lookup_range ((lo, hi, v) # rs) d c = (if lo \<le> c \<and> c \<le> hi then v else lookup_range rs d c)"

fun lookup_point :: "(nat \<times> 'a) list \<Rightarrow> 'a \<Rightarrow> nat \<Rightarrow> 'a" where
  "lookup_point [] d c = d"
| "lookup_point ((k, v) # rs) d c = (if c = k then v else lookup_point rs d c)"

definition excerpt_category :: "nat \<Rightarrow> string" where
  "excerpt_category c =
     lookup_range
       [(0x0, 0x1F, ''Cc''), (0x20, 0x20, ''Zs''), (0x21, 0x23, ''Po''), (0x24, 0x24, ''Sc''),
        (0x25, 0x27, ''Po''), (0x28, 0x28, ''Ps''), (0x29, 0x29, ''Pe''), (0x2A, 0x2A, ''Po''),
        (0x2B, 0x2B, ''Sm''), (0x2C, 0x2C, ''Po''), (0x2D, 0x2D, ''Pd''), (0x2E, 0x2F, ''Po''),
        (0x30, 0x39, ''Nd''), (0x3A, 0x3B, ''Po''), (0x3C, 0x3E, ''Sm''), (0x3F, 0x40, ''Po''),
        (0x41, 0x5A, ''Lu''), (0x5B, 0x5B, ''Ps''), (0x5C, 0x5C, ''Po''), (0x5D, 0x5D, ''Pe''),
        (0x5E, 0x5E, ''Sk''), (0x5F, 0x5F, ''Pc''), (0x60, 0x60, ''Sk''), (0x61, 0x7A, ''Ll''),
        (0x7B, 0x7B, ''Ps''), (0x7C, 0x7C, ''Sm''), (0x7D, 0x7D, ''Pe''), (0x7E, 0x7E, ''Sm''),
        (0x7F, 0x9F, ''Cc''), (0xA0, 0xA0, ''Zs''), (0xA1, 0xA1, ''Po''), (0xA2, 0xA5, ''Sc''),
        (0xA6, 0xA6, ''So''), (0xA7, 0xA7, ''Po''), (0xA8, 0xA8, ''Sk''), (0xA9, 0xA9, ''So''),
        (0xAA, 0xAA, ''Lo''), (0xAB, 0xAB, ''Pi''), (0xAC, 0xAC, ''Sm''), (0xAD, 0xAD, ''Cf''),
        (0xAE, 0xAE, ''So''), (0xAF, 0xAF, ''Sk''), (0xB0, 0xB0, ''So''), (0xB1, 0xB1, ''Sm''),
        (0xB2, 0xB3, ''No''), (0xB4, 0xB4, ''Sk''), (0xB5, 0xB5, ''Ll''), (0xB6, 0xB7, ''Po''),
        (0xB8, 0xB8, ''Sk''), (0xB9, 0xB9, ''No''), (0xBA, 0xBA, ''Lo''), (0xBB, 0xBB, ''Pf''),
        (0xBC, 0xBE, ''No''), (0xBF, 0xBF, ''Po''), (0xC0, 0xD6, ''Lu''), (0xD7, 0xD7, ''Sm''),
        (0xD8, 0xDE, ''Lu''), (0xDF, 0xF6, ''Ll''), (0xF7, 0xF7, ''Sm''), (0xF8, 0xFF, ''Ll''),
        (0x300, 0x36F, ''Mn''), (0x3D2, 0x3D2, ''Lu''), (0x1D165, 0x1D165, ''Mc''),
        (0x1D16D, 0x1D16D, ''Mc'')]
       ''Cn'' c"

definition excerpt_combining :: "nat \<Rightarrow> nat" where
  "excerpt_combining c =
     lookup_range
       [(0x300, 0x314, 230), (0x315, 0x315, 232), (0x316, 0x319, 220), (0x31A, 0x31A, 232),
        (0x31B, 0x31B, 216), (0x31C, 0x320, 220), (0x321, 0x322, 202), (0x323, 0x326, 220),
        (0x327, 0x328, 202), (0x329, 0x333, 220), (0x334, 0x338, 1), (0x339, 0x33C, 220),
        (0x33D, 0x344, 230), (0x345, 0x345, 240), (0x346, 0x346, 230), (0x347, 0x349, 220),
        (0x34A, 0x34C, 230), (0x34D, 0x34E, 220), (0x350, 0x352, 230), (0x353, 0x356, 220),
        (0x357, 0x357, 230), (0x358, 0x358, 232), (0x359, 0x35A, 220), (0x35B, 0x35B, 230),
        (0x35C, 0x35C, 233), (0x35D, 0x35E, 234), (0x35F, 0x35F, 233), (0x360, 0x361, 234),
        (0x362, 0x362, 233), (0x363, 0x36F, 230), (0x1D165, 0x1D165, 216),
        (0x1D16D, 0x1D16D, 226)]
       0 c"

text \<open>
  The precomposed Latin-1 letters decompose into a base letter and one mark; the mark
  is given by the position of the letter in its row.
\<close>

definition excerpt_decomposition :: "nat \<Rightarrow> ustr" where
  "excerpt_decomposition c =
     lookup_point
        [(0xC0, [0x41, 0x300]), (0xC1, [0x41, 0x301]), (0xC2, [0x41, 0x302]),
         (0xC3, [0x41, 0x303]), (0xC4, [0x41, 0x308]), (0xC5, [0x41, 0x30A]),
         (0xC7, [0x43, 0x327]), (0xC8, [0x45, 0x300]), (0xC9, [0x45, 0x301]),
         (0xCA, [0x45, 0x302]), (0xCB, [0x45, 0x308]), (0xCC, [0x49, 0x300]),
         (0xCD, [0x49, 0x301]), (0xCE, [0x49, 0x302]), (0xCF, [0x49, 0x308]),
         (0xD1, [0x4E, 0x303]), (0xD2, [0x4F, 0x300]), (0xD3, [0x4F, 0x301]),
         (0xD4, [0x4F, 0x302]), (0xD5, [0x4F, 0x303]), (0xD6, [0x4F, 0x308]),
         (0xD9, [0x55, 0x300]), (0xDA, [0x55, 0x301]), (0xDB, [0x55, 0x302]),
         (0xDC, [0x55, 0x308]), (0xDD, [0x59, 0x301]), (0xE0, [0x61, 0x300]),
         (0xE1, [0x61, 0x301]), (0xE2, [0x61, 0x302]), (0xE3, [0x61, 0x303]),
         (0xE4, [0x61, 0x308]), (0xE5, [0x61, 0x30A]), (0xE7, [0x63, 0x327]),
         (0xE8, [0x65, 0x300]), (0xE9, [0x65, 0x301]), (0xEA, [0x65, 0x302]),
         (0xEB, [0x65, 0x308]), (0xEC, [0x69, 0x300]), (0xED, [0x69, 0x301]),
         (0xEE, [0x69, 0x302]), (0xEF, [0x69, 0x308]), (0xF1, [0x6E, 0x303]),
         (0xF2, [0x6F, 0x300]), (0xF3, [0x6F, 0x301]), (0xF4, [0x6F, 0x302]),
         (0xF5, [0x6F, 0x303]), (0xF6, [0x6F, 0x308]), (0xF9, [0x75, 0x300]),
         (0xFA, [0x75, 0x301]), (0xFB, [0x75, 0x302]), (0xFC, [0x75, 0x308]),
         (0xFD, [0x79, 0x301]), (0xFF, [0x79, 0x308]), (0x340, [0x300]), (0x341, [0x301]),
         (0x343, [0x313]), (0x344, [0x308, 0x301])]
        [c] c"

text \<open>
  Lowercase mappings: \<open>A\<close>--\<open>Z\<close> and the Latin-1 capitals \<open>U+00C0\<close>--\<open>U+00DE\<close> (the
  multiplication sign \<open>U+00D7\<close> apart) map 32 places up; no other code point of the
  excerpt has a lowercase mapping, and none of them is context-sensitive.
\<close>

definition excerpt_lower_char :: "nat \<Rightarrow> nat" where
  "excerpt_lower_char c =
     (if (0x41 \<le> c \<and> c \<le> 0x5A) \<or> (0xC0 \<le> c \<and> c \<le> 0xDE \<and> c \<noteq> 0xD7) then c + 32 else c)"

definition unicode_excerpt :: ucd where
  "unicode_excerpt =
     \<lparr>ucd_decomposition = excerpt_decomposition,
      ucd_combining = excerpt_combining,
      ucd_category = excerpt_category,
      str_lower = map excerpt_lower_char\<rparr>"

subsection \<open>The steps after line 91, and two variants of the function\<close>

text \<open>
  Lines 94 to 108 of \<open>normalize_name_for_blocking\<close> as a function of the lowercased and
  stripped text; the same steps as in the definition above, named so that they can be
  evaluated and reasoned about on their own.
\<close>

definition tail_of_pipeline :: "ustr \<Rightarrow> ustr" where
  "tail_of_pipeline t3 =
     (let t4 = py_replace [0x5C, 0x20] [0x20] t3;
          t5 = py_replace [0x5C] [0x20] t4;
          t6 = py_replace [0x2E] [] t5;
          t7 = py_replace [0x2C] [] t6;
          t8 = py_replace [0x2D] [0x20] t7;
          t9 = py_replace [0x27] [] t8;
          t10 = py_strip (re_sub_backslash_s [0x20] t9);
          t11 = strip_suffixes (PyStr t10);
          t12 = py_strip (re_sub_backslash_s [0x20] t11)
      in t12)"

text \<open>
  The value of \<open>text\<close> after line 95 (where the punctuation steps read it), after line
  99 (where the first \<open>re.sub\<close> reads it) and after line 105 (where the second reads
  it), as functions of the decoded text \<open>t1\<close>.
\<close>

definition text_at_line_95 :: "ucd \<Rightarrow> ustr \<Rightarrow> ustr" where
  "text_at_line_95 U t1 =
     py_replace [0x5C] [0x20]
       (py_replace [0x5C, 0x20] [0x20]
          (py_strip (str_lower U (strip_accents U (PyStr t1)))))"

definition text_at_line_99 :: "ucd \<Rightarrow> ustr \<Rightarrow> ustr" where
  "text_at_line_99 U t1 =
     py_replace [0x27] []
       (py_replace [0x2D] [0x20]
          (py_replace [0x2C] []
             (py_replace [0x2E] []
                (py_replace [0x5C] [0x20]
                   (py_replace [0x5C, 0x20] [0x20]
                      (py_strip (str_lower U (strip_accents U (PyStr t1)))))))))"

definition text_at_line_105 :: "ucd \<Rightarrow> ustr \<Rightarrow> ustr" where
  "text_at_line_105 U t1 =
     strip_suffixes (PyStr (py_strip (re_sub_backslash_s [0x20] (text_at_line_99 U t1))))"

text \<open>The function with line 94 (the replacement of backslash-space) deleted.\<close>

definition normalize_without_step5 :: "ucd \<Rightarrow> pyobj \<Rightarrow> pyexc + ustr" where
  "normalize_without_step5 U text =
     (if \<not> isinstance_str text then Inr []
      else
        case decode_literal_hex_sequences text of
          Inl e \<Rightarrow> Inl e
        | Inr t1 \<Rightarrow>
            (let t2 = strip_accents U (PyStr t1);
                 t3 = py_strip (str_lower U t2);
                 t5 = py_replace [0x5C] [0x20] t3;
                 t6 = py_replace [0x2E] [] t5;
                 t7 = py_replace [0x2C] [] t6;
                 t8 = py_replace [0x2D] [0x20] t7;
                 t9 = py_replace [0x27] [] t8;
                 t10 = py_strip (re_sub_backslash_s [0x20] t9);
                 t11 = strip_suffixes (PyStr t10);
                 t12 = py_strip (re_sub_backslash_s [0x20] t11)
             in Inr t12))"

text \<open>The function with both \<open>re.sub(...).strip()\<close> calls replaced by \<open>text.strip()\<close>.\<close>

definition normalize_strip_only :: "ucd \<Rightarrow> pyobj \<Rightarrow> pyexc + ustr" where
  "normalize_strip_only U text =
     (if \<not> isinstance_str text then Inr []
      else
        case decode_literal_hex_sequences text of
          Inl e \<Rightarrow> Inl e
        | Inr t1 \<Rightarrow>
            (let t2 = strip_accents U (PyStr t1);
                 t3 = py_strip (str_lower U t2);
                 t4 = py_replace [0x5C, 0x20] [0x20] t3;
                 t5 = py_replace [0x5C] [0x20] t4;
                 t6 = py_replace [0x2E] [] t5;
                 t7 = py_replace [0x2C] [] t6;
                 t8 = py_replace [0x2D] [0x20] t7;
                 t9 = py_replace [0x27] [] t8;
                 t10 = py_strip t9;
                 t11 = strip_suffixes (PyStr t10);
                 t12 = py_strip t11
             in Inr t12))"

section \<open>The decoder as the specification describes it\<close>

text \<open>
  The specification describes three passes over the text.  A pass for runs of \<open>n\<close>
  escapes looks, at each position from left to right, for \<open>n\<close> consecutive escapes: a
  backslash, an \<open>x\<close> and two hexadecimal digits each.  It hands the \<open>n\<close> byte values to
  a decoder; on success the run is replaced by the decoded characters, on failure it is
  left as it is; the scan goes on behind the run.  Where there is no run, the character
  is kept.  Passes 1 and 2 (\<open>n = 3\<close> and \<open>n = 2\<close>) decode the bytes as UTF-8, pass 3
  (\<open>n = 1\<close>) takes the byte as the code point.
\<close>

definition hexval :: "nat \<Rightarrow> nat" where
  "hexval c = (if c \<le> 0x39 then c - 0x30 else if 0x61 \<le> c then c - 0x57 else c - 0x37)"

definition escape_at :: "ustr \<Rightarrow> nat \<Rightarrow> bool" where
  "escape_at t i \<longleftrightarrow>
     i + 3 < length t \<and> t ! i = 0x5C \<and> t ! (i + 1) = 0x78 \<and> is_hexdigit (t ! (i + 2))
       \<and> is_hexdigit (t ! (i + 3))"

definition escape_byte :: "ustr \<Rightarrow> nat \<Rightarrow> nat" where
  "escape_byte t i = 16 * hexval (t ! (i + 2)) + hexval (t ! (i + 3))"

definition escape_run :: "nat \<Rightarrow> ustr \<Rightarrow> bool" where
  "escape_run n t \<longleftrightarrow> list_all (\<lambda>k. escape_at t (4 * k)) [0..<n]"

definition run_bytes :: "nat \<Rightarrow> ustr \<Rightarrow> nat list" where
  "run_bytes n t = map (\<lambda>k. escape_byte t (4 * k)) [0..<n]"

text \<open>\<open>spec_pass n dec k t\<close>: the pass over \<open>t\<close>, with \<open>k\<close> characters still to skip.\<close>

fun spec_pass :: "nat \<Rightarrow> (nat list \<Rightarrow> ustr option) \<Rightarrow> nat \<Rightarrow> ustr \<Rightarrow> ustr" where
  "spec_pass n dec k [] = []"
| "spec_pass n dec (Suc k) (c # cs) = spec_pass n dec k cs"
| "spec_pass n dec 0 (c # cs) =
     (if escape_run n (c # cs)
      then (case dec (run_bytes n (c # cs)) of Some r \<Rightarrow> r | None \<Rightarrow> take (4 * n) (c # cs))
             @ spec_pass n dec (4 * n - 1) cs
      else c # spec_pass n dec 0 cs)"

definition spec_decode :: "ustr \<Rightarrow> ustr" where
  "spec_decode s =
     spec_pass 1 (\<lambda>bs. Some bs) 0 (spec_pass 2 utf8_decode 0 (spec_pass 3 utf8_decode 0 s))"

section \<open>Auxiliary notions for the proofs\<close>

definition space_free :: "ustr \<Rightarrow> bool" where
  "space_free x \<longleftrightarrow> list_all (\<lambda>c. \<not> py_isspace c) x"

text \<open>The groups of a run of escapes: the two digits of each.\<close>

definition run_groups :: "nat \<Rightarrow> ustr \<Rightarrow> ustr list" where
  "run_groups n t = map (\<lambda>k. [t ! (4 * k + 2), t ! (4 * k + 3)]) [0..<n]"

text \<open>What lines 95 to 99 make of one character.\<close>

definition punct_image :: "nat \<Rightarrow> ustr" where
  "punct_image c =
     (if c = 0x5C \<or> c = 0x2D then [0x20]
      else if c = 0x2E \<or> c = 0x2C \<or> c = 0x27 then []
      else [c])"

text \<open>The surviving tokens of the punctuation-free text, joined by single spaces.\<close>

definition finish :: "ustr \<Rightarrow> ustr" where
  "finish t = py_join [0x20] (filter (\<lambda>tok. tok \<notin> suffix_tokens)
                (py_split (concat (map punct_image t))))"

section \<open>Lemmas about the library functions and the decoder\<close>

lemma replace_scan_single:
  "replace_scan [a] new t = concat (map (\<lambda>c. if c = a then new else [c]) t)"
  by (induction t) auto

lemma py_replace_single:
  "py_replace [a] new t = concat (map (\<lambda>c. if c = a then new else [c]) t)"
  by (simp add: py_replace_def replace_scan_single)

lemma py_replace_single_absent:
  "a \<notin> set new \<Longrightarrow> a \<notin> set (py_replace [a] new t)"
  by (auto simp: py_replace_single)

lemma py_replace_single_subset:
  "set (py_replace [a] new t) \<subseteq> set t \<union> set new"
  by (auto simp: py_replace_single split: if_splits)

lemma re_sub_backslash_s_id:
  "0x5C \<notin> set t \<Longrightarrow> re_sub_backslash_s repl t = t"
  by (induction t) auto

lemma py_join_empty_sep: "py_join [] xss = concat xss"
  by (induction "[]::nat list" xss rule: py_join.induct) auto

lemma split_scan_space_free_append:
  "space_free x \<Longrightarrow> split_scan cur (x @ rest) = split_scan (cur @ x) rest"
  by (induction x arbitrary: cur) (auto simp: space_free_def)

lemma split_scan_tokens:
  "space_free cur \<Longrightarrow> \<forall>tok\<in>set (split_scan cur s). tok \<noteq> [] \<and> space_free tok"
proof (induction s arbitrary: cur)
  case Nil
  then show ?case by simp
next
  case (Cons c s)
  show ?case
    using Cons.IH [of "[]"] Cons.IH [of "cur @ [c]"] Cons.prems
    by (auto simp: space_free_def)
qed

lemma py_split_tokens: "\<forall>tok\<in>set (py_split s). tok \<noteq> [] \<and> space_free tok"
  unfolding py_split_def by (rule split_scan_tokens) (simp add: space_free_def)

lemma space_free_hd_last:
  "x \<noteq> [] \<Longrightarrow> space_free x \<Longrightarrow> \<not> py_isspace (hd x) \<and> \<not> py_isspace (last x)"
  using hd_in_set [of x] last_in_set [of x] by (auto simp: space_free_def list_all_iff)

lemma py_isspace_space: "py_isspace 0x20"
  by (simp add: py_isspace_def)

lemma split_join:
  "\<forall>tok\<in>set toks. tok \<noteq> [] \<and> space_free tok \<Longrightarrow> py_split (py_join [0x20] toks) = toks"
proof (induction "[0x20]::nat list" toks rule: py_join.induct)
  case 1
  then show ?case by (simp add: py_split_def)
next
  case (2 x)
  then show ?case
    using split_scan_space_free_append [of x "[]" "[]"] by (simp add: py_split_def)
next
  case (3 x y ys)
  then show ?case
    using split_scan_space_free_append [of x "[]" "0x20 # py_join [0x20] (y # ys)"]
    by (simp add: py_split_def py_isspace_space)
qed

lemma join_hd_last:
  "\<forall>tok\<in>set toks. tok \<noteq> [] \<and> space_free tok \<Longrightarrow> toks \<noteq> [] \<Longrightarrow>
   py_join [0x20] toks \<noteq> [] \<and> \<not> py_isspace (hd (py_join [0x20] toks))
     \<and> \<not> py_isspace (last (py_join [0x20] toks))"
proof (induction "[0x20]::nat list" toks rule: py_join.induct)
  case 1
  then show ?case by simp
next
  case (2 x)
  then show ?case using space_free_hd_last [of x] by simp
next
  case (3 x y ys)
  then show ?case using space_free_hd_last [of x] by (simp add: hd_append)
qed

lemma py_strip_id:
  "s = [] \<or> (\<not> py_isspace (hd s) \<and> \<not> py_isspace (last s)) \<Longrightarrow> py_strip s = s"
proof -
  assume a: "s = [] \<or> (\<not> py_isspace (hd s) \<and> \<not> py_isspace (last s))"
  then have 1: "dropWhile py_isspace s = s"
    by (auto simp: dropWhile_eq_self_iff)
  from a have "dropWhile py_isspace (rev s) = rev s"
    by (auto simp: dropWhile_eq_self_iff hd_rev)
  with 1 show ?thesis by (simp add: py_strip_def)
qed

lemma strip_join:
  "\<forall>tok\<in>set toks. tok \<noteq> [] \<and> space_free tok \<Longrightarrow>
   py_strip (py_join [0x20] toks) = py_join [0x20] toks"
  using join_hd_last [of toks] by (cases "toks = []") (auto intro!: py_strip_id)

lemma set_join: "set (py_join sep toks) \<subseteq> \<Union> (set ` set toks) \<union> set sep"
  by (induction sep toks rule: py_join.induct) auto

lemma set_split_scan:
  "\<forall>tok\<in>set (split_scan cur s). set tok \<subseteq> set cur \<union> set s"
proof (induction s arbitrary: cur)
  case Nil
  then show ?case by simp
next
  case (Cons c s)
  show ?case
    using Cons.IH [of "[]"] Cons.IH [of "cur @ [c]"] by auto
qed

lemma set_py_split: "tok \<in> set (py_split s) \<Longrightarrow> set tok \<subseteq> set s"
  using set_split_scan [of "[]" s] by (simp add: py_split_def)

lemma set_py_strip: "set (py_strip s) \<subseteq> set s"
  unfolding py_strip_def
  by (metis set_dropWhileD set_rev subsetI)

lemma successively_space_free:
  "space_free x \<Longrightarrow> successively (\<lambda>a b. py_isspace a \<longrightarrow> \<not> py_isspace b) x"
  by (induction x) (auto simp: space_free_def successively_Cons)

lemma join_single_spaced:
  "\<forall>tok\<in>set toks. tok \<noteq> [] \<and> space_free tok \<Longrightarrow>
   successively (\<lambda>a b. py_isspace a \<longrightarrow> \<not> py_isspace b) (py_join [0x20] toks)"
proof (induction "[0x20]::nat list" toks rule: py_join.induct)
  case 1
  then show ?case by simp
next
  case (2 x)
  then show ?case by (simp add: successively_space_free)
next
  case (3 x y ys)
  have x: "x \<noteq> []" "space_free x" using 3 by auto
  have "\<not> py_isspace (last x)" using x space_free_hd_last by blast
  moreover have "\<not> py_isspace (hd (py_join [0x20] (y # ys)))" "py_join [0x20] (y # ys) \<noteq> []"
    using join_hd_last [of "y # ys"] 3 by auto
  ultimately show ?case
    using 3 x by (auto simp: successively_append_iff successively_Cons successively_space_free)
qed

lemma split_scan_dropWhile:
  "split_scan [] (dropWhile py_isspace s) = split_scan [] s"
  by (induction s) auto

lemma split_scan_trailing:
  "list_all py_isspace w \<Longrightarrow> split_scan cur (a @ w) = split_scan cur a"
proof (induction a arbitrary: cur)
  case Nil
  then show ?case by (induction w arbitrary: cur) auto
next
  case (Cons c a)
  then show ?case by simp
qed

lemma py_split_strip: "py_split (py_strip s) = py_split s"
proof -
  define t where "t = dropWhile py_isspace s"
  have "t = rev (dropWhile py_isspace (rev t)) @ rev (takeWhile py_isspace (rev t))"
    by (metis rev_append rev_rev_ident takeWhile_dropWhile_id)
  moreover have "list_all py_isspace (rev (takeWhile py_isspace (rev t)))"
    by (simp add: list_all_iff) (meson set_takeWhileD)
  ultimately have "split_scan [] (rev (dropWhile py_isspace (rev t))) = split_scan [] t"
    using split_scan_trailing by metis
  then show ?thesis
    by (simp add: py_split_def py_strip_def t_def split_scan_dropWhile)
qed

lemma spec_pass_skip: "spec_pass n dec k t = spec_pass n dec 0 (drop k t)"
proof (induction t arbitrary: k)
  case Nil
  then show ?case by simp
next
  case (Cons c t)
  then show ?case by (cases k) simp_all
qed

lemma nth_plus4: "(a # b # c # d # rest) ! (4 + i) = rest ! i"
  by (simp add: eval_nat_numeral)

lemma escape_at_shift:
  "escape_at (a # b # c # d # rest) (4 + i) = escape_at rest i"
proof -
  have "4 + i + 1 = 4 + (i + 1)" "4 + i + 2 = 4 + (i + 2)" "4 + i + 3 = 4 + (i + 3)"
    by simp_all
  then show ?thesis
    unfolding escape_at_def by (simp only: nth_plus4) (simp add: add.commute)
qed

lemma escape_at_0:
  "escape_at t 0 \<longleftrightarrow>
     (\<exists>h1 h2 rest. t = 0x5C # 0x78 # h1 # h2 # rest \<and> is_hexdigit h1 \<and> is_hexdigit h2)"
proof
  assume a: "escape_at t 0"
  then obtain a b c d rest where t: "t = a # b # c # d # rest"
    by (cases t; cases "tl t"; cases "tl (tl t)"; cases "tl (tl (tl t))")
       (auto simp: escape_at_def)
  with a show "\<exists>h1 h2 rest. t = 0x5C # 0x78 # h1 # h2 # rest \<and> is_hexdigit h1 \<and> is_hexdigit h2"
    by (auto simp: escape_at_def eval_nat_numeral)
next
  assume "\<exists>h1 h2 rest. t = 0x5C # 0x78 # h1 # h2 # rest \<and> is_hexdigit h1 \<and> is_hexdigit h2"
  then show "escape_at t 0"
    by (auto simp: escape_at_def eval_nat_numeral)
qed

lemma match_hex_groups_short:
  "length t < 4 \<Longrightarrow> match_hex_groups (Suc n) t = None"
  by (cases t; cases "tl t"; cases "tl (tl t)"; cases "tl (tl (tl t))") auto

lemma escape_run_Suc:
  "escape_run (Suc n) (a # b # c # d # rest) \<longleftrightarrow>
     escape_at (a # b # c # d # rest) 0 \<and> escape_run n rest"
proof -
  have "[0..<Suc n] = 0 # map Suc [0..<n]"
    by (simp add: upt_conv_Cons map_Suc_upt del: upt_Suc)
  then show ?thesis
    by (simp add: escape_run_def list.pred_map comp_def escape_at_shift del: upt_Suc)
qed

lemma escape_run_short: "length t < 4 \<Longrightarrow> \<not> escape_run (Suc n) t"
proof -
  assume "length t < 4"
  then have "\<not> escape_at t 0" by (simp add: escape_at_def)
  moreover have "[0..<Suc n] = 0 # map Suc [0..<n]"
    by (simp add: upt_conv_Cons map_Suc_upt del: upt_Suc)
  ultimately show ?thesis by (simp add: escape_run_def del: upt_Suc)
qed

lemma run_groups_Suc:
  "run_groups (Suc n) (a # b # c # d # rest) = [c, d] # run_groups n rest"
proof -
  have "[0..<Suc n] = 0 # map Suc [0..<n]"
    by (simp add: upt_conv_Cons map_Suc_upt del: upt_Suc)
  moreover have "\<And>k. (a # b # c # d # rest) ! (4 + (4 * k + 2)) = rest ! (4 * k + 2)"
    "\<And>k. (a # b # c # d # rest) ! (4 + (4 * k + 3)) = rest ! (4 * k + 3)"
    by (rule nth_plus4)+
  ultimately show ?thesis
    by (simp add: run_groups_def comp_def add.commute add.left_commute eval_nat_numeral
        del: upt_Suc)
qed

lemma run_bytes_Suc:
  "run_bytes (Suc n) (a # b # c # d # rest) = (16 * hexval c + hexval d) # run_bytes n rest"
proof -
  have "[0..<Suc n] = 0 # map Suc [0..<n]"
    by (simp add: upt_conv_Cons map_Suc_upt del: upt_Suc)
  moreover have "\<And>k. (a # b # c # d # rest) ! (4 + (4 * k + 2)) = rest ! (4 * k + 2)"
    "\<And>k. (a # b # c # d # rest) ! (4 + (4 * k + 3)) = rest ! (4 * k + 3)"
    by (rule nth_plus4)+
  ultimately show ?thesis
    by (simp add: run_bytes_def escape_byte_def comp_def add.commute add.left_commute
        eval_nat_numeral del: upt_Suc)
qed

lemma match_hex_groups_run:
  "match_hex_groups n t = (if escape_run n t then Some (run_groups n t) else None)"
proof (induction n arbitrary: t)
  case 0
  then show ?case by (simp add: escape_run_def run_groups_def)
next
  case (Suc n)
  show ?case
  proof (cases "length t < 4")
    case True
    then show ?thesis by (simp add: match_hex_groups_short escape_run_short)
  next
    case False
    then obtain a b c d rest where t: "t = a # b # c # d # rest"
      by (cases t; cases "tl t"; cases "tl (tl t)"; cases "tl (tl (tl t))") auto
    show ?thesis
      unfolding t
      by (auto simp: Suc escape_run_Suc run_groups_Suc escape_at_0)
  qed
qed

lemma hex_digit_value_hexval:
  "is_hexdigit c \<Longrightarrow> hex_digit_value c = Some (int (hexval c))"
  by (auto simp: is_hexdigit_def hex_digit_value_def hexval_def)

lemma hexval_bound: "is_hexdigit c \<Longrightarrow> hexval c < 16"
  by (auto simp: is_hexdigit_def hexval_def)

lemma py_int_base16_pair:
  "is_hexdigit c \<Longrightarrow> is_hexdigit d \<Longrightarrow>
   py_int_base16 [c, d] = Inr (int (16 * hexval c + hexval d))"
  by (simp add: py_int_base16_def hex_digit_value_hexval)

lemma collect_hex_bytes_run:
  "escape_run n t \<Longrightarrow> collect_hex_bytes (run_groups n t) = Inr (map int (run_bytes n t))"
proof (induction n arbitrary: t)
  case 0
  then show ?case by (simp add: run_groups_def run_bytes_def)
next
  case (Suc n)
  then have "\<not> length t < 4" using escape_run_short by blast
  then obtain a b c d rest where t: "t = a # b # c # d # rest"
    by (cases t; cases "tl t"; cases "tl (tl t)"; cases "tl (tl (tl t))") auto
  from Suc.prems have r: "escape_run n rest" and h: "is_hexdigit c" "is_hexdigit d"
    by (auto simp: t escape_run_Suc escape_at_0)
  show ?case
    unfolding t by (simp add: run_groups_Suc run_bytes_Suc py_int_base16_pair h Suc.IH [OF r])
qed

lemma run_bytes_bound: "escape_run n t \<Longrightarrow> list_all (\<lambda>b. b < 256) (run_bytes n t)"
proof (induction n arbitrary: t)
  case 0
  then show ?case by (simp add: run_bytes_def)
next
  case (Suc n)
  then have "\<not> length t < 4" using escape_run_short by blast
  then obtain a b c d rest where t: "t = a # b # c # d # rest"
    by (cases t; cases "tl t"; cases "tl (tl t)"; cases "tl (tl (tl t))") auto
  from Suc.prems have r: "escape_run n rest" and h: "is_hexdigit c" "is_hexdigit d"
    by (auto simp: t escape_run_Suc escape_at_0)
  show ?case
    unfolding t using hexval_bound [OF h(1)] hexval_bound [OF h(2)] Suc.IH [OF r]
    by (simp add: run_bytes_Suc)
qed

lemma py_bytes_run:
  "escape_run n t \<Longrightarrow> py_bytes (map int (run_bytes n t)) = Inr (run_bytes n t)"
  using run_bytes_bound [of n t]
  by (simp add: py_bytes_def list_all_iff comp_def)

lemma match_at_run:
  "match_at n t =
     (if escape_run n t then Some \<lparr>group0 = take (4 * n) t, groups = run_groups n t\<rparr> else None)"
  by (simp add: match_at_def match_hex_groups_run)

lemma decode_sequence_run:
  "escape_run n t \<Longrightarrow>
   decode_sequence \<lparr>group0 = take (4 * n) t, groups = run_groups n t\<rparr> =
     Inr (case utf8_decode (run_bytes n t) of Some r \<Rightarrow> r | None \<Rightarrow> take (4 * n) t)"
  by (simp add: decode_sequence_def collect_hex_bytes_run py_bytes_run py_decode_utf8_def
      split: option.splits)

lemma py_chr_byte: "v < 256 \<Longrightarrow> py_chr (int v) = Inr v"
  by (simp add: py_chr_def)

lemma decode_single_run:
  assumes "escape_run 1 t"
  shows "decode_single \<lparr>group0 = take (4 * 1) t, groups = run_groups 1 t\<rparr> =
     Inr (case Some (run_bytes 1 t) of Some r \<Rightarrow> r | None \<Rightarrow> take (4 * 1) t)"
proof -
  from assms have e: "escape_run (Suc 0) t" by simp
  then have "\<not> length t < 4" using escape_run_short by blast
  then obtain a b c d rest where t: "t = a # b # c # d # rest"
    by (cases t; cases "tl t"; cases "tl (tl t)"; cases "tl (tl (tl t))") auto
  from e have h: "is_hexdigit c" "is_hexdigit d"
    by (auto simp: t escape_run_Suc escape_at_0)
  define v where "v = 16 * hexval c + hexval d"
  have g: "run_groups 1 t = [[c, d]]"
    using run_groups_Suc [of 0 a b c d rest] by (simp add: t run_groups_def)
  have b: "run_bytes 1 t = [v]"
    using run_bytes_Suc [of 0 a b c d rest] by (simp add: t run_bytes_def v_def)
  have i: "py_int_base16 [c, d] = Inr (int v)"
    unfolding v_def by (rule py_int_base16_pair [OF h])
  have "v < 256"
    using hexval_bound [OF h(1)] hexval_bound [OF h(2)] by (simp add: v_def)
  then have c: "py_chr (int v) = Inr v" by (rule py_chr_byte)
  show ?thesis
    using g b i c by (simp add: decode_single_def match_group_def)
qed

lemma re_sub_hex_spec:
  assumes "\<And>t. escape_run n t \<Longrightarrow>
     repl \<lparr>group0 = take (4 * n) t, groups = run_groups n t\<rparr> =
       Inr (case dec (run_bytes n t) of Some r \<Rightarrow> r | None \<Rightarrow> take (4 * n) t)"
  shows "re_sub_hex n repl s = Inr (spec_pass n dec 0 s)"
proof (induction s rule: length_induct)
  case (1 s)
  show ?case
  proof (cases s)
    case Nil
    then show ?thesis by simp
  next
    case (Cons c cs)
    show ?thesis
    proof (cases "escape_run n (c # cs)")
      case True
      have "length (drop (4 * n - 1) cs) < length s" by (simp add: Cons)
      with 1 have "re_sub_hex n repl (drop (4 * n - 1) cs) = Inr (spec_pass n dec 0 (drop (4 * n - 1) cs))"
        by blast
      then show ?thesis
        using True assms [OF True] spec_pass_skip [of n dec "4 * n - 1" cs]
        by (simp add: Cons match_at_run)
    next
      case False
      have "re_sub_hex n repl cs = Inr (spec_pass n dec 0 cs)"
        using 1 by (simp add: Cons)
      then show ?thesis using False by (simp add: Cons match_at_run)
    qed
  qed
qed

lemma decode_spec: "decode_literal_hex_sequences (PyStr s) = Inr (spec_decode s)"
proof -
  have 3: "\<And>s. re_sub_hex 3 decode_sequence s = Inr (spec_pass 3 utf8_decode 0 s)"
    by (rule re_sub_hex_spec) (rule decode_sequence_run)
  have 2: "\<And>s. re_sub_hex 2 decode_sequence s = Inr (spec_pass 2 utf8_decode 0 s)"
    by (rule re_sub_hex_spec) (rule decode_sequence_run)
  have 1: "\<And>s. re_sub_hex 1 decode_single s = Inr (spec_pass 1 (\<lambda>bs. Some bs) 0 s)"
    by (rule re_sub_hex_spec) (rule decode_single_run)
  show ?thesis
    by (simp only: decode_literal_hex_sequences_def pyobj.case 1 2 3 spec_decode_def sum.case)
qed

lemma punct_chain:
  "py_replace [0x27] [] (py_replace [0x2D] [0x20] (py_replace [0x2C] []
     (py_replace [0x2E] [] (py_replace [0x5C] [0x20] t)))) = concat (map punct_image t)"
  by (induction t) (simp_all add: py_replace_single punct_image_def)

lemma punct_image_clean:
  "c \<in> set (concat (map punct_image t)) \<Longrightarrow>
     c \<noteq> 0x5C \<and> c \<noteq> 0x2D \<and> c \<noteq> 0x2E \<and> c \<noteq> 0x2C \<and> c \<noteq> 0x27"
  by (auto simp: punct_image_def split: if_splits)

lemma punct_image_subset:
  "set (concat (map punct_image t)) \<subseteq> set t \<union> {0x20}"
  by (auto simp: punct_image_def split: if_splits)

lemma kept_tokens_good:
  "\<forall>tok\<in>set (filter P (py_split t)). tok \<noteq> [] \<and> space_free tok"
  using py_split_tokens [of t] by simp

lemma set_finish: "set (finish t) \<subseteq> set (concat (map punct_image t)) \<union> {0x20}"
proof
  fix c assume "c \<in> set (finish t)"
  then have "c \<in> \<Union> (set ` set (filter (\<lambda>tok. tok \<notin> suffix_tokens)
      (py_split (concat (map punct_image t))))) \<union> set [0x20]"
    unfolding finish_def using set_join by blast
  then show "c \<in> set (concat (map punct_image t)) \<union> {0x20}"
    using set_py_split by fastforce
qed

lemma finish_clean:
  "c \<in> set (finish t) \<Longrightarrow> c \<noteq> 0x5C \<and> c \<noteq> 0x2D \<and> c \<noteq> 0x2E \<and> c \<noteq> 0x2C \<and> c \<noteq> 0x27"
proof -
  assume "c \<in> set (finish t)"
  then have "c \<in> set (concat (map punct_image t)) \<or> c = 0x20"
    using set_finish [of t] by blast
  then show ?thesis
    using punct_image_clean [of c t] by (elim disjE) simp_all
qed

lemma tail_steps:
  "py_strip (re_sub_backslash_s [0x20] (strip_suffixes (PyStr (py_strip
     (re_sub_backslash_s [0x20] (concat (map punct_image t))))))) = finish t"
proof -
  have 1: "re_sub_backslash_s [0x20] (concat (map punct_image t)) = concat (map punct_image t)"
    by (rule re_sub_backslash_s_id) (use punct_image_clean in blast)
  have 2: "strip_suffixes (PyStr (py_strip (concat (map punct_image t)))) = finish t"
    by (simp add: strip_suffixes_def finish_def py_split_strip)
  have 3: "re_sub_backslash_s [0x20] (finish t) = finish t"
    by (rule re_sub_backslash_s_id) (use finish_clean in blast)
  have 4: "py_strip (finish t) = finish t"
    unfolding finish_def by (rule strip_join) (rule kept_tokens_good)
  show ?thesis by (simp add: 1 2 3 4)
qed

lemma tail_steps_strip_only:
  "py_strip (strip_suffixes (PyStr (py_strip (concat (map punct_image t))))) = finish t"
proof -
  have 2: "strip_suffixes (PyStr (py_strip (concat (map punct_image t)))) = finish t"
    by (simp add: strip_suffixes_def finish_def py_split_strip)
  have 4: "py_strip (finish t) = finish t"
    unfolding finish_def by (rule strip_join) (rule kept_tokens_good)
  show ?thesis by (simp add: 2 4)
qed

lemma normalize_canonical:
  "normalize_name_for_blocking U (PyStr s) =
     Inr (finish (py_replace [0x5C, 0x20] [0x20]
            (py_strip (str_lower U (strip_accents U (PyStr (spec_decode s)))))))"
  by (simp add: normalize_name_for_blocking_def decode_spec Let_def punct_chain tail_steps)

lemma normalize_without_step5_canonical:
  "normalize_without_step5 U (PyStr s) =
     Inr (finish (py_strip (str_lower U (strip_accents U (PyStr (spec_decode s))))))"
  by (simp add: normalize_without_step5_def decode_spec Let_def punct_chain tail_steps)

lemma normalize_strip_only_canonical:
  "normalize_strip_only U (PyStr s) =
     Inr (finish (py_replace [0x5C, 0x20] [0x20]
            (py_strip (str_lower U (strip_accents U (PyStr (spec_decode s)))))))"
  by (simp add: normalize_strip_only_def decode_spec Let_def punct_chain tail_steps_strip_only)

lemma split_scan_cong_prefix:
  "(\<And>cur. split_scan cur x = split_scan cur y) \<Longrightarrow> split_scan cur (p @ x) = split_scan cur (p @ y)"
  by (induction p arbitrary: cur) simp_all

lemma split_scan_step5:
  "split_scan cur (concat (map punct_image (replace_scan [0x5C, 0x20] [0x20] t)))
     = split_scan cur (concat (map punct_image t))"
proof (induction t arbitrary: cur rule: length_induct)
  case (1 t)
  show ?case
  proof (cases t)
    case Nil
    then show ?thesis by simp
  next
    case (Cons c cs)
    show ?thesis
    proof (cases "prefix [0x5C, 0x20] (c # cs)")
      case True
      then obtain r where cs: "c = 0x5C" "cs = 0x20 # r"
        by (cases cs) auto
      have ih: "\<And>cur. split_scan cur (concat (map punct_image (replace_scan [0x5C, 0x20] [0x20] r)))
          = split_scan cur (concat (map punct_image r))"
        using 1 by (simp add: Cons cs)
      have p: "punct_image 0x5C = [0x20]" "punct_image 0x20 = [0x20]"
        by (simp_all add: punct_image_def)
      show ?thesis
        by (simp add: Cons cs p py_isspace_space ih)
    next
      case False
      have ih: "\<And>cur. split_scan cur (concat (map punct_image (replace_scan [0x5C, 0x20] [0x20] cs)))
          = split_scan cur (concat (map punct_image cs))"
        using 1 by (simp add: Cons)
      have "replace_scan [0x5C, 0x20] [0x20] (c # cs) = c # replace_scan [0x5C, 0x20] [0x20] cs"
        using False by simp
      then show ?thesis
        using split_scan_cong_prefix [OF ih, of cur "punct_image c"] by (simp add: Cons)
    qed
  qed
qed

lemma finish_step5: "finish (py_replace [0x5C, 0x20] [0x20] t) = finish t"
  by (simp add: finish_def py_split_def py_replace_def split_scan_step5)

section \<open>Evaluating the model on concrete inputs\<close>

lemma match_hex_groups_numeral:
  "match_hex_groups 3 t = match_hex_groups (Suc (Suc (Suc 0))) t"
  "match_hex_groups 2 t = match_hex_groups (Suc (Suc 0)) t"
  "match_hex_groups 1 t = match_hex_groups (Suc 0) t"
  by (simp_all add: eval_nat_numeral)

lemma lookup_range_cong:
  "d = d' \<Longrightarrow> c = c' \<Longrightarrow> lookup_range rs d c = lookup_range rs d' c'"
  by simp

lemma lookup_point_cong:
  "d = d' \<Longrightarrow> c = c' \<Longrightarrow> lookup_point rs d c = lookup_point rs d' c'"
  by simp

lemmas decode_eval =
  decode_literal_hex_sequences_def match_at_def match_hex_groups_numeral is_hexdigit_def
  decode_sequence_def decode_single_def py_int_base16_def hex_digit_value_def py_bytes_def
  py_decode_utf8_def is_cont_def py_chr_def match_group_def

lemmas excerpt_eval =
  excerpt_category_def [of "numeral k"] excerpt_combining_def [of "numeral k"]
  excerpt_decomposition_def [of "numeral k"] excerpt_lower_char_def [of "numeral k"] for k

lemmas accent_eval = strip_accents_def normalize_NFD_def unicode_excerpt_def excerpt_eval

lemmas lower_eval = unicode_excerpt_def excerpt_eval py_strip_def py_isspace_def

lemmas tail_eval =
  tail_of_pipeline_def py_replace_def py_strip_def py_isspace_def strip_suffixes_def
  py_split_def suffix_tokens_def

lemma normalize_stages:
  assumes "decode_literal_hex_sequences (PyStr s) = Inr t1"
    and "strip_accents U (PyStr t1) = t2"
    and "py_strip (str_lower U t2) = t3"
    and "tail_of_pipeline t3 = r"
  shows "normalize_name_for_blocking U (PyStr s) = Inr r"
  using assms by (simp add: normalize_name_for_blocking_def tail_of_pipeline_def Let_def)

lemma eval_malformed_escape:
  "normalize_name_for_blocking unicode_excerpt (PyStr (u ''ab'' @ [0x5C] @ u ''xZZcd'')) = Inr (u ''ab xzzcd'')"
proof (rule normalize_stages)
  show "decode_literal_hex_sequences (PyStr (u ''ab'' @ [0x5C] @ u ''xZZcd'')) = Inr (u ''ab'' @ [0x5C] @ u ''xZZcd'')"
    by (simp add: decode_eval)
  show "strip_accents unicode_excerpt (PyStr (u ''ab'' @ [0x5C] @ u ''xZZcd'')) = u ''ab'' @ [0x5C] @ u ''xZZcd''"
    by (simp add: accent_eval cong: lookup_range_cong lookup_point_cong)
  show "py_strip (str_lower unicode_excerpt (u ''ab'' @ [0x5C] @ u ''xZZcd'')) = u ''ab'' @ [0x5C] @ u ''xzzcd''"
    by (simp add: lower_eval)
  show "tail_of_pipeline (u ''ab'' @ [0x5C] @ u ''xzzcd'') = u ''ab xzzcd''"
    by (simp add: tail_eval)
qed

lemma eval_jose_garcia_escaped:
  "normalize_name_for_blocking unicode_excerpt (PyStr (u ''Jos'' @ [0x5C] @ u ''xc3'' @ [0x5C] @ u ''xa9 Garc'' @ [0x5C] @ u ''xc3'' @ [0x5C] @ u ''xada'')) = Inr (u ''jose garcia'')"
proof (rule normalize_stages)
  show "decode_literal_hex_sequences (PyStr (u ''Jos'' @ [0x5C] @ u ''xc3'' @ [0x5C] @ u ''xa9 Garc'' @ [0x5C] @ u ''xc3'' @ [0x5C] @ u ''xada'')) = Inr (u ''Jos'' @ [0xE9] @ u '' Garc'' @ [0xED] @ u ''a'')"
    by (simp add: decode_eval)
  show "strip_accents unicode_excerpt (PyStr (u ''Jos'' @ [0xE9] @ u '' Garc'' @ [0xED] @ u ''a'')) = u ''Jose Garcia''"
    by (simp add: accent_eval cong: lookup_range_cong lookup_point_cong)
  show "py_strip (str_lower unicode_excerpt (u ''Jose Garcia'')) = u ''jose garcia''"
    by (simp add: lower_eval)
  show "tail_of_pipeline (u ''jose garcia'') = u ''jose garcia''"
    by (simp add: tail_eval)
qed

lemma eval_jose_accented:
  "normalize_name_for_blocking unicode_excerpt (PyStr (u ''Jos'' @ [0xE9])) = Inr (u ''jose'')"
proof (rule normalize_stages)
  show "decode_literal_hex_sequences (PyStr (u ''Jos'' @ [0xE9])) = Inr (u ''Jos'' @ [0xE9])"
    by (simp add: decode_eval)
  show "strip_accents unicode_excerpt (PyStr (u ''Jos'' @ [0xE9])) = u ''Jose''"
    by (simp add: accent_eval cong: lookup_range_cong lookup_point_cong)
  show "py_strip (str_lower unicode_excerpt (u ''Jose'')) = u ''jose''"
    by (simp add: lower_eval)
  show "tail_of_pipeline (u ''jose'') = u ''jose''"
    by (simp add: tail_eval)
qed

lemma eval_jose_plain:
  "normalize_name_for_blocking unicode_excerpt (PyStr (u ''Jose'')) = Inr (u ''jose'')"
proof (rule normalize_stages)
  show "decode_literal_hex_sequences (PyStr (u ''Jose'')) = Inr (u ''Jose'')"
    by (simp add: decode_eval)
  show "strip_accents unicode_excerpt (PyStr (u ''Jose'')) = u ''Jose''"
    by (simp add: accent_eval cong: lookup_range_cong lookup_point_cong)
  show "py_strip (str_lower unicode_excerpt (u ''Jose'')) = u ''jose''"
    by (simp add: lower_eval)
  show "tail_of_pipeline (u ''jose'') = u ''jose''"
    by (simp add: tail_eval)
qed

lemma eval_vincent_price:
  "normalize_name_for_blocking unicode_excerpt (PyStr (u ''Vincent Price'')) = Inr (u ''vincent price'')"
proof (rule normalize_stages)
  show "decode_literal_hex_sequences (PyStr (u ''Vincent Price'')) = Inr (u ''Vincent Price'')"
    by (simp add: decode_eval)
  show "strip_accents unicode_excerpt (PyStr (u ''Vincent Price'')) = u ''Vincent Price''"
    by (simp add: accent_eval cong: lookup_range_cong lookup_point_cong)
  show "py_strip (str_lower unicode_excerpt (u ''Vincent Price'')) = u ''vincent price''"
    by (simp add: lower_eval)
  show "tail_of_pipeline (u ''vincent price'') = u ''vincent price''"
    by (simp add: tail_eval)
qed

lemma eval_john_smith_iii:
  "normalize_name_for_blocking unicode_excerpt (PyStr (u ''John Smith III'')) = Inr (u ''john smith'')"
proof (rule normalize_stages)
  show "decode_literal_hex_sequences (PyStr (u ''John Smith III'')) = Inr (u ''John Smith III'')"
    by (simp add: decode_eval)
  show "strip_accents unicode_excerpt (PyStr (u ''John Smith III'')) = u ''John Smith III''"
    by (simp add: accent_eval cong: lookup_range_cong lookup_point_cong)
  show "py_strip (str_lower unicode_excerpt (u ''John Smith III'')) = u ''john smith iii''"
    by (simp add: lower_eval)
  show "tail_of_pipeline (u ''john smith iii'') = u ''john smith''"
    by (simp add: tail_eval)
qed

lemma eval_jr_sr:
  "normalize_name_for_blocking unicode_excerpt (PyStr (u ''Jr. Sr.'')) = Inr []"
proof (rule normalize_stages)
  show "decode_literal_hex_sequences (PyStr (u ''Jr. Sr.'')) = Inr (u ''Jr. Sr.'')"
    by (simp add: decode_eval)
  show "strip_accents unicode_excerpt (PyStr (u ''Jr. Sr.'')) = u ''Jr. Sr.''"
    by (simp add: accent_eval cong: lookup_range_cong lookup_point_cong)
  show "py_strip (str_lower unicode_excerpt (u ''Jr. Sr.'')) = u ''jr. sr.''"
    by (simp add: lower_eval)
  show "tail_of_pipeline (u ''jr. sr.'') = []"
    by (simp add: tail_eval)
qed

lemma eval_obrien_smith:
  "normalize_name_for_blocking unicode_excerpt (PyStr (u ''O'' @ [0x27] @ u ''Brien-Smith, Jr.'')) = Inr (u ''obrien smith'')"
proof (rule normalize_stages)
  show "decode_literal_hex_sequences (PyStr (u ''O'' @ [0x27] @ u ''Brien-Smith, Jr.'')) = Inr (u ''O'' @ [0x27] @ u ''Brien-Smith, Jr.'')"
    by (simp add: decode_eval)
  show "strip_accents unicode_excerpt (PyStr (u ''O'' @ [0x27] @ u ''Brien-Smith, Jr.'')) = u ''O'' @ [0x27] @ u ''Brien-Smith, Jr.''"
    by (simp add: accent_eval cong: lookup_range_cong lookup_point_cong)
  show "py_strip (str_lower unicode_excerpt (u ''O'' @ [0x27] @ u ''Brien-Smith, Jr.'')) = u ''o'' @ [0x27] @ u ''brien-smith, jr.''"
    by (simp add: lower_eval)
  show "tail_of_pipeline (u ''o'' @ [0x27] @ u ''brien-smith, jr.'') = u ''obrien smith''"
    by (simp add: tail_eval)
qed

lemma eval_john_smith_spaces:
  "normalize_name_for_blocking unicode_excerpt (PyStr (u ''  John   Smith  '')) = Inr (u ''john smith'')"
proof (rule normalize_stages)
  show "decode_literal_hex_sequences (PyStr (u ''  John   Smith  '')) = Inr (u ''  John   Smith  '')"
    by (simp add: decode_eval)
  show "strip_accents unicode_excerpt (PyStr (u ''  John   Smith  '')) = u ''  John   Smith  ''"
    by (simp add: accent_eval cong: lookup_range_cong lookup_point_cong)
  show "py_strip (str_lower unicode_excerpt (u ''  John   Smith  '')) = u ''john   smith''"
    by (simp add: lower_eval)
  show "tail_of_pipeline (u ''john   smith'') = u ''john smith''"
    by (simp add: tail_eval)
qed

lemma eval_upsilon_hook:
  "normalize_name_for_blocking unicode_excerpt (PyStr [0x3D2]) = Inr [0x3D2]"
proof (rule normalize_stages)
  show "decode_literal_hex_sequences (PyStr [0x3D2]) = Inr [0x3D2]"
    by (simp add: decode_eval)
  show "strip_accents unicode_excerpt (PyStr [0x3D2]) = [0x3D2]"
    by (simp add: accent_eval cong: lookup_range_cong lookup_point_cong)
  show "py_strip (str_lower unicode_excerpt [0x3D2]) = [0x3D2]"
    by (simp add: lower_eval)
  show "tail_of_pipeline [0x3D2] = [0x3D2]"
    by (simp add: tail_eval)
qed

lemma eval_music_first:
  "normalize_name_for_blocking unicode_excerpt (PyStr [0x1D16D, 0x2E, 0x1D165]) = Inr [0x1D16D, 0x1D165]"
proof (rule normalize_stages)
  show "decode_literal_hex_sequences (PyStr [0x1D16D, 0x2E, 0x1D165]) = Inr [0x1D16D, 0x2E, 0x1D165]"
    by (simp add: decode_eval)
  show "strip_accents unicode_excerpt (PyStr [0x1D16D, 0x2E, 0x1D165]) = [0x1D16D, 0x2E, 0x1D165]"
    by (simp add: accent_eval cong: lookup_range_cong lookup_point_cong)
  show "py_strip (str_lower unicode_excerpt [0x1D16D, 0x2E, 0x1D165]) = [0x1D16D, 0x2E, 0x1D165]"
    by (simp add: lower_eval)
  show "tail_of_pipeline [0x1D16D, 0x2E, 0x1D165] = [0x1D16D, 0x1D165]"
    by (simp add: tail_eval)
qed

lemma eval_music_second:
  "normalize_name_for_blocking unicode_excerpt (PyStr [0x1D16D, 0x1D165]) = Inr [0x1D165, 0x1D16D]"
proof (rule normalize_stages)
  show "decode_literal_hex_sequences (PyStr [0x1D16D, 0x1D165]) = Inr [0x1D16D, 0x1D165]"
    by (simp add: decode_eval)
  show "strip_accents unicode_excerpt (PyStr [0x1D16D, 0x1D165]) = [0x1D165, 0x1D16D]"
    by (simp add: accent_eval cong: lookup_range_cong lookup_point_cong)
  show "py_strip (str_lower unicode_excerpt [0x1D165, 0x1D16D]) = [0x1D165, 0x1D16D]"
    by (simp add: lower_eval)
  show "tail_of_pipeline [0x1D165, 0x1D16D] = [0x1D165, 0x1D16D]"
    by (simp add: tail_eval)
qed

lemma eval_period_deleted:
  "normalize_name_for_blocking unicode_excerpt (PyStr (u ''a.b'')) = Inr (u ''ab'')"
proof (rule normalize_stages)
  show "decode_literal_hex_sequences (PyStr (u ''a.b'')) = Inr (u ''a.b'')"
    by (simp add: decode_eval)
  show "strip_accents unicode_excerpt (PyStr (u ''a.b'')) = u ''a.b''"
    by (simp add: accent_eval cong: lookup_range_cong lookup_point_cong)
  show "py_strip (str_lower unicode_excerpt (u ''a.b'')) = u ''a.b''"
    by (simp add: lower_eval)
  show "tail_of_pipeline (u ''a.b'') = u ''ab''"
    by (simp add: tail_eval)
qed

lemma eval_comma_deleted:
  "normalize_name_for_blocking unicode_excerpt (PyStr (u ''a,b'')) = Inr (u ''ab'')"
proof (rule normalize_stages)
  show "decode_literal_hex_sequences (PyStr (u ''a,b'')) = Inr (u ''a,b'')"
    by (simp add: decode_eval)
  show "strip_accents unicode_excerpt (PyStr (u ''a,b'')) = u ''a,b''"
    by (simp add: accent_eval cong: lookup_range_cong lookup_point_cong)
  show "py_strip (str_lower unicode_excerpt (u ''a,b'')) = u ''a,b''"
    by (simp add: lower_eval)
  show "tail_of_pipeline (u ''a,b'') = u ''ab''"
    by (simp add: tail_eval)
qed

lemma eval_apostrophe_deleted:
  "normalize_name_for_blocking unicode_excerpt (PyStr (u ''a'' @ [0x27] @ u ''b'')) = Inr (u ''ab'')"
proof (rule normalize_stages)
  show "decode_literal_hex_sequences (PyStr (u ''a'' @ [0x27] @ u ''b'')) = Inr (u ''a'' @ [0x27] @ u ''b'')"
    by (simp add: decode_eval)
  show "strip_accents unicode_excerpt (PyStr (u ''a'' @ [0x27] @ u ''b'')) = u ''a'' @ [0x27] @ u ''b''"
    by (simp add: accent_eval cong: lookup_range_cong lookup_point_cong)
  show "py_strip (str_lower unicode_excerpt (u ''a'' @ [0x27] @ u ''b'')) = u ''a'' @ [0x27] @ u ''b''"
    by (simp add: lower_eval)
  show "tail_of_pipeline (u ''a'' @ [0x27] @ u ''b'') = u ''ab''"
    by (simp add: tail_eval)
qed

lemma eval_hyphen_to_space:
  "normalize_name_for_blocking unicode_excerpt (PyStr (u ''a-b'')) = Inr (u ''a b'')"
proof (rule normalize_stages)
  show "decode_literal_hex_sequences (PyStr (u ''a-b'')) = Inr (u ''a-b'')"
    by (simp add: decode_eval)
  show "strip_accents unicode_excerpt (PyStr (u ''a-b'')) = u ''a-b''"
    by (simp add: accent_eval cong: lookup_range_cong lookup_point_cong)
  show "py_strip (str_lower unicode_excerpt (u ''a-b'')) = u ''a-b''"
    by (simp add: lower_eval)
  show "tail_of_pipeline (u ''a-b'') = u ''a b''"
    by (simp add: tail_eval)
qed

lemma eval_space_run:
  "normalize_name_for_blocking unicode_excerpt (PyStr (u ''a   b'')) = Inr (u ''a b'')"
proof (rule normalize_stages)
  show "decode_literal_hex_sequences (PyStr (u ''a   b'')) = Inr (u ''a   b'')"
    by (simp add: decode_eval)
  show "strip_accents unicode_excerpt (PyStr (u ''a   b'')) = u ''a   b''"
    by (simp add: accent_eval cong: lookup_range_cong lookup_point_cong)
  show "py_strip (str_lower unicode_excerpt (u ''a   b'')) = u ''a   b''"
    by (simp add: lower_eval)
  show "tail_of_pipeline (u ''a   b'') = u ''a b''"
    by (simp add: tail_eval)
qed

section \<open>Properties of the output\<close>

lemma set_replace_scan: "set (replace_scan old new t) \<subseteq> set t \<union> set new"
proof (induction old new t rule: replace_scan.induct)
  case (1 old new)
  then show ?case by simp
next
  case (2 old new c cs)
  show ?case
  proof (cases "prefix old (c # cs)")
    case True
    have "set (drop (length old - 1) cs) \<subseteq> set cs" by (rule set_drop_subset)
    with 2(1) [OF True] True show ?thesis by auto
  next
    case False
    with 2(2) [OF False] show ?thesis by auto
  qed
qed

lemma finish_chars: "c \<in> set (finish t) \<Longrightarrow> c \<in> set t \<or> c = 0x20"
  using set_finish [of t] punct_image_subset [of t] by blast

lemma finish_space: "c \<in> set (finish t) \<Longrightarrow> py_isspace c \<Longrightarrow> c = 0x20"
proof -
  let ?toks = "filter (\<lambda>tok. tok \<notin> suffix_tokens) (py_split (concat (map punct_image t)))"
  assume c: "c \<in> set (finish t)" and sp: "py_isspace c"
  from c have "c \<in> \<Union> (set ` set ?toks) \<union> set [0x20]"
    unfolding finish_def using set_join by blast
  moreover have "\<forall>tok\<in>set ?toks. \<forall>d\<in>set tok. \<not> py_isspace d"
    using kept_tokens_good [of _ "concat (map punct_image t)"]
    by (simp add: space_free_def list_all_iff)
  ultimately show ?thesis using sp by auto
qed

lemma finish_tokens:
  "py_split (finish t) = filter (\<lambda>tok. tok \<notin> suffix_tokens) (py_split (concat (map punct_image t)))"
  unfolding finish_def by (rule split_join) (rule kept_tokens_good)

lemma finish_single_spaced:
  "successively (\<lambda>a b. \<not> (py_isspace a \<and> py_isspace b)) (finish t)"
proof -
  have "successively (\<lambda>a b. py_isspace a \<longrightarrow> \<not> py_isspace b) (finish t)"
    unfolding finish_def by (rule join_single_spaced) (rule kept_tokens_good)
  then show ?thesis by simp
qed

lemma finish_ends:
  "finish t \<noteq> [] \<Longrightarrow> \<not> py_isspace (hd (finish t)) \<and> \<not> py_isspace (last (finish t))"
proof -
  let ?toks = "filter (\<lambda>tok. tok \<notin> suffix_tokens) (py_split (concat (map punct_image t)))"
  assume "finish t \<noteq> []"
  then have "?toks \<noteq> []" unfolding finish_def by auto
  then show ?thesis
    unfolding finish_def using join_hd_last [of ?toks] kept_tokens_good by blast
qed

lemma finish_fixpoint: "py_join [0x20] (py_split (finish t)) = finish t"
  by (simp add: finish_tokens) (simp add: finish_def)

lemma normalize_chars:
  assumes "c \<in> set (finish (py_replace [0x5C, 0x20] [0x20] (py_strip (str_lower U t2))))"
  shows "c \<in> set (str_lower U t2) \<or> c = 0x20"
proof -
  from assms have "c \<in> set (py_replace [0x5C, 0x20] [0x20] (py_strip (str_lower U t2))) \<or> c = 0x20"
    by (rule finish_chars)
  moreover have "set (py_replace [0x5C, 0x20] [0x20] (py_strip (str_lower U t2)))
      \<subseteq> set (py_strip (str_lower U t2)) \<union> {0x20}"
    using set_replace_scan [of "[0x5C, 0x20]" "[0x20]"] by (simp add: py_replace_def)
  ultimately show ?thesis using set_py_strip [of "str_lower U t2"] by blast
qed

lemma punct4_chain:
  "py_replace [0x27] [] (py_replace [0x2D] [0x20] (py_replace [0x2C] [] (py_replace [0x2E] [] t)))
     = concat (map (\<lambda>c. if c = 0x2E \<or> c = 0x2C \<or> c = 0x27 then [] else if c = 0x2D then [0x20]
                          else [c]) t)"
  by (induction t) (simp_all add: py_replace_single)

lemma text_at_line_99_image:
  "text_at_line_99 U t1 =
     concat (map punct_image
       (py_replace [0x5C, 0x20] [0x20] (py_strip (str_lower U (strip_accents U (PyStr t1))))))"
  by (simp add: text_at_line_99_def punct_chain)

lemma text_at_line_105_finish:
  "text_at_line_105 U t1 =
     finish (py_replace [0x5C, 0x20] [0x20] (py_strip (str_lower U (strip_accents U (PyStr t1)))))"
proof -
  let ?t = "py_replace [0x5C, 0x20] [0x20] (py_strip (str_lower U (strip_accents U (PyStr t1))))"
  have "re_sub_backslash_s [0x20] (concat (map punct_image ?t)) = concat (map punct_image ?t)"
    by (rule re_sub_backslash_s_id) (use punct_image_clean in blast)
  then show ?thesis
    by (simp add: text_at_line_105_def text_at_line_99_image strip_suffixes_def finish_def
        py_split_strip)
qed

section \<open>The claims\<close>

subsection \<open>C1: a malformed escape\<close>

text \<open>
  C1, as amended.  For the eight characters \<open>a\<close>, \<open>b\<close>, backslash, \<open>x\<close>, \<open>Z\<close>, \<open>Z\<close>,
  \<open>c\<close>, \<open>d\<close> the hex decoder has no match and returns the text as it is: the fragment
  is neither decoded nor dropped, and no exception is raised.  The function lowercases
  it; line 95 then replaces the backslash by a space, so the result is \<open>ab xzzcd\<close>.
\<close>

theorem C1_malformed_escape_backslash_becomes_space:
  "decode_literal_hex_sequences (PyStr (u ''ab'' @ [0x5C] @ u ''xZZcd''))
     = Inr (u ''ab'' @ [0x5C] @ u ''xZZcd'')
   \<and> normalize_name_for_blocking unicode_excerpt (PyStr (u ''ab'' @ [0x5C] @ u ''xZZcd''))
     = Inr (u ''ab xzzcd'')"
proof
  show "decode_literal_hex_sequences (PyStr (u ''ab'' @ [0x5C] @ u ''xZZcd''))
     = Inr (u ''ab'' @ [0x5C] @ u ''xZZcd'')"
    by (simp add: decode_eval)
  show "normalize_name_for_blocking unicode_excerpt (PyStr (u ''ab'' @ [0x5C] @ u ''xZZcd''))
     = Inr (u ''ab xzzcd'')"
    by (rule eval_malformed_escape)
qed

text \<open>
  C1 as stated fails: the output is not the lowercased input with the backslash kept.
\<close>

theorem C1_counterexample:
  "normalize_name_for_blocking unicode_excerpt (PyStr (u ''ab'' @ [0x5C] @ u ''xZZcd''))
     \<noteq> Inr (u ''ab'' @ [0x5C] @ u ''xzzcd'')"
  unfolding eval_malformed_escape by simp

subsection \<open>C2: idempotence\<close>

text \<open>
  C2.  The docstring promises idempotence, but the function is not idempotent.  On the
  three code points \<open>U+1D16D\<close>, full stop, \<open>U+1D165\<close> the full stop keeps the two
  combining characters (classes 226 and 216, category \<open>Mc\<close>) apart during
  normalization and is removed afterwards; the result \<open>U+1D16D U+1D165\<close> is not in
  canonical order, and a second application exchanges the two.
\<close>

theorem C2_second_application_differs:
  "normalize_name_for_blocking unicode_excerpt (PyStr [0x1D16D, 0x2E, 0x1D165])
     = Inr [0x1D16D, 0x1D165]
   \<and> normalize_name_for_blocking unicode_excerpt (PyStr [0x1D16D, 0x1D165])
     = Inr [0x1D165, 0x1D16D]"
  using eval_music_first eval_music_second by simp

subsection \<open>C3: the normalized form\<close>

text \<open>
  C3, as amended.  For every string the function returns a string \<open>r\<close> such that:
  \<open>r\<close> has no period, comma, hyphen, apostrophe or backslash; every whitespace
  character of \<open>r\<close> is the space \<open>U+0020\<close>; no two whitespace characters are adjacent;
  \<open>r\<close> neither starts nor ends with whitespace; \<open>r\<close> is its own tokens joined by single
  spaces; none of its tokens is a suffix token; and every character of \<open>r\<close> is a space
  or a character of what \<open>str.lower\<close> returned for the decoded, accent-stripped text, so
  that \<open>r\<close> has no uppercase letter except those that \<open>str.lower\<close> itself emits
  (a letter without a lowercase mapping stays).  In particular \<open>"  John   Smith  "\<close>
  gives \<open>"john smith"\<close>.
\<close>

theorem C3_normalized_form:
  "(\<exists>r t1. decode_literal_hex_sequences (PyStr s) = Inr t1
      \<and> normalize_name_for_blocking U (PyStr s) = Inr r
      \<and> (\<forall>c\<in>set r. c \<noteq> 0x2E \<and> c \<noteq> 0x2C \<and> c \<noteq> 0x2D \<and> c \<noteq> 0x27 \<and> c \<noteq> 0x5C)
      \<and> (\<forall>c\<in>set r. py_isspace c \<longrightarrow> c = 0x20)
      \<and> successively (\<lambda>a b. \<not> (py_isspace a \<and> py_isspace b)) r
      \<and> (r \<noteq> [] \<longrightarrow> \<not> py_isspace (hd r) \<and> \<not> py_isspace (last r))
      \<and> py_join [0x20] (py_split r) = r
      \<and> (\<forall>tok\<in>set (py_split r). tok \<notin> suffix_tokens)
      \<and> (\<forall>c\<in>set r. c = 0x20 \<or> c \<in> set (str_lower U (strip_accents U (PyStr t1)))))
   \<and> normalize_name_for_blocking unicode_excerpt (PyStr (u ''  John   Smith  ''))
       = Inr (u ''john smith'')"
proof
  define t1 where "t1 = spec_decode s"
  define r where
    "r = finish (py_replace [0x5C, 0x20] [0x20]
           (py_strip (str_lower U (strip_accents U (PyStr t1)))))"
  have d: "decode_literal_hex_sequences (PyStr s) = Inr t1"
    by (simp add: t1_def decode_spec)
  have n: "normalize_name_for_blocking U (PyStr s) = Inr r"
    by (simp add: r_def t1_def normalize_canonical)
  have 1: "\<forall>c\<in>set r. c \<noteq> 0x2E \<and> c \<noteq> 0x2C \<and> c \<noteq> 0x2D \<and> c \<noteq> 0x27 \<and> c \<noteq> 0x5C"
    unfolding r_def using finish_clean by blast
  have 2: "\<forall>c\<in>set r. py_isspace c \<longrightarrow> c = 0x20"
    unfolding r_def using finish_space by blast
  have 3: "successively (\<lambda>a b. \<not> (py_isspace a \<and> py_isspace b)) r"
    unfolding r_def by (rule finish_single_spaced)
  have 4: "r \<noteq> [] \<longrightarrow> \<not> py_isspace (hd r) \<and> \<not> py_isspace (last r)"
    unfolding r_def using finish_ends by blast
  have 5: "py_join [0x20] (py_split r) = r"
    unfolding r_def by (rule finish_fixpoint)
  have 6: "\<forall>tok\<in>set (py_split r). tok \<notin> suffix_tokens"
    unfolding r_def by (simp add: finish_tokens)
  have 7: "\<forall>c\<in>set r. c = 0x20 \<or> c \<in> set (str_lower U (strip_accents U (PyStr t1)))"
    unfolding r_def using normalize_chars by blast
  from d n 1 2 3 4 5 6 7
  show "\<exists>r t1. decode_literal_hex_sequences (PyStr s) = Inr t1
      \<and> normalize_name_for_blocking U (PyStr s) = Inr r
      \<and> (\<forall>c\<in>set r. c \<noteq> 0x2E \<and> c \<noteq> 0x2C \<and> c \<noteq> 0x2D \<and> c \<noteq> 0x27 \<and> c \<noteq> 0x5C)
      \<and> (\<forall>c\<in>set r. py_isspace c \<longrightarrow> c = 0x20)
      \<and> successively (\<lambda>a b. \<not> (py_isspace a \<and> py_isspace b)) r
      \<and> (r \<noteq> [] \<longrightarrow> \<not> py_isspace (hd r) \<and> \<not> py_isspace (last r))
      \<and> py_join [0x20] (py_split r) = r
      \<and> (\<forall>tok\<in>set (py_split r). tok \<notin> suffix_tokens)
      \<and> (\<forall>c\<in>set r. c = 0x20 \<or> c \<in> set (str_lower U (strip_accents U (PyStr t1))))"
    by blast
  show "normalize_name_for_blocking unicode_excerpt (PyStr (u ''  John   Smith  ''))
       = Inr (u ''john smith'')"
    by (rule eval_john_smith_spaces)
qed

text \<open>
  The theorem at the input \<open>"  John   Smith  "\<close> with the excerpt of the character
  database: the output \<open>"john smith"\<close> has no two adjacent whitespace characters, no
  suffix token, and every character of it is a space or a character of the lowercased
  text \<open>"  john   smith  "\<close>.
\<close>

theorem C3_normalized_form_witness:
  "successively (\<lambda>a b. \<not> (py_isspace a \<and> py_isspace b)) (u ''john smith'')
   \<and> list_all (\<lambda>tok. tok \<notin> suffix_tokens) (py_split (u ''john smith''))
   \<and> list_all (\<lambda>c. c = 0x20 \<or> c \<in> set (u ''  john   smith  '')) (u ''john smith'')"
proof -
  have d: "decode_literal_hex_sequences (PyStr (u ''  John   Smith  ''))
      = Inr (u ''  John   Smith  '')"
    by (simp add: decode_eval)
  have a: "strip_accents unicode_excerpt (PyStr (u ''  John   Smith  '')) = u ''  John   Smith  ''"
    by (simp add: accent_eval cong: lookup_range_cong lookup_point_cong)
  have l: "str_lower unicode_excerpt (u ''  John   Smith  '') = u ''  john   smith  ''"
    by (simp add: unicode_excerpt_def excerpt_eval)
  from C3_normalized_form [of "u ''  John   Smith  ''" unicode_excerpt]
  obtain r t1 where t1: "decode_literal_hex_sequences (PyStr (u ''  John   Smith  '')) = Inr t1"
    and r: "normalize_name_for_blocking unicode_excerpt (PyStr (u ''  John   Smith  ''))
        = Inr r"
    and 3: "successively (\<lambda>a b. \<not> (py_isspace a \<and> py_isspace b)) r"
    and 6: "\<forall>tok\<in>set (py_split r). tok \<notin> suffix_tokens"
    and 7: "\<forall>c\<in>set r. c = 0x20 \<or> c \<in> set (str_lower unicode_excerpt
              (strip_accents unicode_excerpt (PyStr t1)))"
    by blast
  from r have r': "r = u ''john smith''" unfolding eval_john_smith_spaces by simp
  from t1 have t1': "t1 = u ''  John   Smith  ''" unfolding d by simp
  from 7 have "\<forall>c\<in>set r. c = 0x20 \<or> c \<in> set (u ''  john   smith  '')"
    unfolding t1' a l .
  with 3 6 show ?thesis unfolding r' by (simp only: list_all_iff)
qed

text \<open>
  C3 as stated fails on uppercase letters: \<open>U+03D2\<close> (Greek upsilon with hook symbol) has
  general category \<open>Lu\<close> and no lowercase mapping, and the function returns it unchanged.
\<close>

theorem C3_counterexample:
  "normalize_name_for_blocking unicode_excerpt (PyStr [0x3D2]) = Inr [0x3D2]
   \<and> ucd_category unicode_excerpt 0x3D2 = ''Lu''"
proof
  show "normalize_name_for_blocking unicode_excerpt (PyStr [0x3D2]) = Inr [0x3D2]"
    by (rule eval_upsilon_hook)
  show "ucd_category unicode_excerpt 0x3D2 = ''Lu''"
    by (simp add: unicode_excerpt_def excerpt_eval cong: lookup_range_cong)
qed

subsection \<open>C4: totality\<close>



subsection \<open>C5: the three passes of the decoder\<close>

text \<open>
  C5.  For every string the decoder returns what the three passes of the specification
  give, applied in order: runs of three escapes decoded as UTF-8, then runs of two, then
  single escapes taken as code points, a run whose bytes do not decode being left as it
  is; it raises nothing.  The literal text of the specification's example (\<open>Jos\<close>, two escapes, \<open> Garc\<close>, two
  escapes, \<open>a\<close>) is normalized to
  \<open>jose garcia\<close>.
\<close>

theorem C5_decoder_is_three_passes:
  "decode_literal_hex_sequences (PyStr s) = Inr (spec_decode s)
   \<and> normalize_name_for_blocking unicode_excerpt
        (PyStr (u ''Jos'' @ [0x5C] @ u ''xc3'' @ [0x5C] @ u ''xa9 Garc'' @ [0x5C] @ u ''xc3''
                  @ [0x5C] @ u ''xada''))
       = Inr (u ''jose garcia'')"
proof
  show "decode_literal_hex_sequences (PyStr s) = Inr (spec_decode s)"
    by (rule decode_spec)
  show "normalize_name_for_blocking unicode_excerpt
        (PyStr (u ''Jos'' @ [0x5C] @ u ''xc3'' @ [0x5C] @ u ''xa9 Garc'' @ [0x5C] @ u ''xc3''
                  @ [0x5C] @ u ''xada''))
       = Inr (u ''jose garcia'')"
    by (rule eval_jose_garcia_escaped)
qed

subsection \<open>C6: the accent stripper\<close>

text \<open>
  C6.  For every string, \<open>_strip_accents\<close> returns the characters of the canonical
  decomposition whose general category is not \<open>Mn\<close>, in order.  \<open>Jos\<close> followed by \<open>U+00E9\<close>, and \<open>Jose\<close>, are
  both normalized to \<open>jose\<close>.
\<close>

theorem C6_strip_accents_is_filter:
  "strip_accents U (PyStr s) = filter (\<lambda>ch. ucd_category U ch \<noteq> ''Mn'') (normalize_NFD U s)
   \<and> normalize_name_for_blocking unicode_excerpt (PyStr (u ''Jos'' @ [0xE9])) = Inr (u ''jose'')
   \<and> normalize_name_for_blocking unicode_excerpt (PyStr (u ''Jose'')) = Inr (u ''jose'')"
proof (intro conjI)
  show "strip_accents U (PyStr s) = filter (\<lambda>ch. ucd_category U ch \<noteq> ''Mn'') (normalize_NFD U s)"
    by (simp add: strip_accents_def py_join_empty_sep)
  show "normalize_name_for_blocking unicode_excerpt (PyStr (u ''Jos'' @ [0xE9])) = Inr (u ''jose'')"
    by (rule eval_jose_accented)
  show "normalize_name_for_blocking unicode_excerpt (PyStr (u ''Jose'')) = Inr (u ''jose'')"
    by (rule eval_jose_plain)
qed

subsection \<open>C7: suffix removal\<close>

text \<open>
  C7.  For every string, \<open>_strip_suffixes\<close> returns the tokens of the string that are
  not in the suffix set, in their order, joined by single spaces; the tokens of its
  result are exactly these tokens.  \<open>Vincent Price\<close> keeps both tokens,
  \<open>John Smith III\<close> loses the last, and \<open>Jr. Sr.\<close> gives the empty string.
\<close>

theorem C7_suffix_removal_is_token_filter:
  "strip_suffixes (PyStr s)
     = py_join [0x20] (filter (\<lambda>tok. tok \<notin> suffix_tokens) (py_split s))
   \<and> py_split (strip_suffixes (PyStr s)) = filter (\<lambda>tok. tok \<notin> suffix_tokens) (py_split s)
   \<and> normalize_name_for_blocking unicode_excerpt (PyStr (u ''Vincent Price''))
       = Inr (u ''vincent price'')
   \<and> normalize_name_for_blocking unicode_excerpt (PyStr (u ''John Smith III''))
       = Inr (u ''john smith'')
   \<and> normalize_name_for_blocking unicode_excerpt (PyStr (u ''Jr. Sr.'')) = Inr []"
proof (intro conjI)
  show "strip_suffixes (PyStr s)
     = py_join [0x20] (filter (\<lambda>tok. tok \<notin> suffix_tokens) (py_split s))"
    by (simp add: strip_suffixes_def)
  show "py_split (strip_suffixes (PyStr s)) = filter (\<lambda>tok. tok \<notin> suffix_tokens) (py_split s)"
    unfolding strip_suffixes_def pyobj.case Let_def
    by (rule split_join) (rule kept_tokens_good)
  show "normalize_name_for_blocking unicode_excerpt (PyStr (u ''Vincent Price''))
       = Inr (u ''vincent price'')"
    by (rule eval_vincent_price)
  show "normalize_name_for_blocking unicode_excerpt (PyStr (u ''John Smith III''))
       = Inr (u ''john smith'')"
    by (rule eval_john_smith_iii)
  show "normalize_name_for_blocking unicode_excerpt (PyStr (u ''Jr. Sr.'')) = Inr []"
    by (rule eval_jr_sr)
qed

subsection \<open>C8: punctuation\<close>

text \<open>
  C8.  For every string, the function computes its result from the text of line 95 with
  every period, comma and apostrophe deleted, a space put for every hyphen and every
  other character kept: that is the text of line 99.  Through the whole function,
  \<open>a.b\<close>, \<open>a,b\<close> and \<open>a\<close>, apostrophe, \<open>b\<close> give \<open>ab\<close> (nothing is inserted), \<open>a-b\<close>
  gives \<open>a b\<close>, and \<open>O'Brien-Smith, Jr.\<close> is normalized to \<open>obrien smith\<close>.
\<close>

theorem C8_punctuation_standardization:
  "normalize_name_for_blocking U (PyStr s)
     = (case decode_literal_hex_sequences (PyStr s) of
          Inl e \<Rightarrow> Inl e
        | Inr t1 \<Rightarrow>
            Inr (py_strip (re_sub_backslash_s [0x20] (strip_suffixes (PyStr (py_strip
              (re_sub_backslash_s [0x20]
                (concat (map (\<lambda>c. if c = 0x2E \<or> c = 0x2C \<or> c = 0x27 then []
                                    else if c = 0x2D then [0x20] else [c])
                   (text_at_line_95 U t1))))))))))
   \<and> text_at_line_99 U t1
       = concat (map (\<lambda>c. if c = 0x2E \<or> c = 0x2C \<or> c = 0x27 then []
                            else if c = 0x2D then [0x20] else [c])
           (text_at_line_95 U t1))
   \<and> normalize_name_for_blocking unicode_excerpt (PyStr (u ''a.b'')) = Inr (u ''ab'')
   \<and> normalize_name_for_blocking unicode_excerpt (PyStr (u ''a,b'')) = Inr (u ''ab'')
   \<and> normalize_name_for_blocking unicode_excerpt (PyStr (u ''a'' @ [0x27] @ u ''b''))
       = Inr (u ''ab'')
   \<and> normalize_name_for_blocking unicode_excerpt (PyStr (u ''a-b'')) = Inr (u ''a b'')
   \<and> normalize_name_for_blocking unicode_excerpt (PyStr (u ''O'' @ [0x27] @ u ''Brien-Smith, Jr.''))
       = Inr (u ''obrien smith'')"
proof (intro conjI)
  show "normalize_name_for_blocking U (PyStr s)
     = (case decode_literal_hex_sequences (PyStr s) of
          Inl e \<Rightarrow> Inl e
        | Inr t1 \<Rightarrow>
            Inr (py_strip (re_sub_backslash_s [0x20] (strip_suffixes (PyStr (py_strip
              (re_sub_backslash_s [0x20]
                (concat (map (\<lambda>c. if c = 0x2E \<or> c = 0x2C \<or> c = 0x27 then []
                                    else if c = 0x2D then [0x20] else [c])
                   (text_at_line_95 U t1))))))))))"
    unfolding punct4_chain [symmetric]
    by (simp add: normalize_name_for_blocking_def text_at_line_95_def Let_def split: sum.splits)
  show "text_at_line_99 U t1
       = concat (map (\<lambda>c. if c = 0x2E \<or> c = 0x2C \<or> c = 0x27 then []
                            else if c = 0x2D then [0x20] else [c])
           (text_at_line_95 U t1))"
    unfolding punct4_chain [symmetric]
    by (simp add: text_at_line_99_def text_at_line_95_def)
  show "normalize_name_for_blocking unicode_excerpt (PyStr (u ''a.b'')) = Inr (u ''ab'')"
    by (rule eval_period_deleted)
  show "normalize_name_for_blocking unicode_excerpt (PyStr (u ''a,b'')) = Inr (u ''ab'')"
    by (rule eval_comma_deleted)
  show "normalize_name_for_blocking unicode_excerpt (PyStr (u ''a'' @ [0x27] @ u ''b''))
       = Inr (u ''ab'')"
    by (rule eval_apostrophe_deleted)
  show "normalize_name_for_blocking unicode_excerpt (PyStr (u ''a-b'')) = Inr (u ''a b'')"
    by (rule eval_hyphen_to_space)
  show "normalize_name_for_blocking unicode_excerpt (PyStr (u ''O'' @ [0x27] @ u ''Brien-Smith, Jr.''))
       = Inr (u ''obrien smith'')"
    by (rule eval_obrien_smith)
qed

subsection \<open>C9: line 94 is redundant\<close>

text \<open>
  C9.  The function with line 94 deleted returns the same result as the function, for
  every value and every character database.
\<close>

theorem C9_step5_redundant:
  "normalize_without_step5 U x = normalize_name_for_blocking U x"
proof (cases x)
  case (PyStr s)
  then show ?thesis
    by (simp add: normalize_canonical normalize_without_step5_canonical finish_step5)
qed (simp_all add: normalize_name_for_blocking_def normalize_without_step5_def)

subsection \<open>C10: the two regular-expression substitutions\<close>

text \<open>
  C10.  The pattern matches a backslash followed by letters \<open>s\<close> and leaves whitespace
  alone.  The text that reaches line 102 and the text that reaches line 108 hold no
  backslash, so both substitutions return them unchanged; and the function with both
  substitutions removed, only \<open>strip\<close> kept, returns the same result for every value.
  The whitespace is collapsed by \<open>_strip_suffixes\<close>: the result of the function is the
  tokens of the text of line 99 that are not suffix tokens, joined by single spaces.
  For \<open>a\<close>, three spaces, \<open>b\<close> the substitution and \<open>strip\<close> keep the three spaces,
  \<open>_strip_suffixes\<close> makes them one, and the function returns \<open>a b\<close>.
\<close>

theorem C10_substitutions_are_identity:
  "re_sub_backslash_s [0x20] ([0x5C] @ u ''ssa'') = u '' a''
   \<and> re_sub_backslash_s [0x20] (u ''a   b'') = u ''a   b''
   \<and> re_sub_backslash_s [0x20] (text_at_line_99 U t1) = text_at_line_99 U t1
   \<and> re_sub_backslash_s [0x20] (text_at_line_105 U t1) = text_at_line_105 U t1
   \<and> normalize_name_for_blocking U (PyStr s)
       = (case decode_literal_hex_sequences (PyStr s) of
            Inl e \<Rightarrow> Inl e
          | Inr t1 \<Rightarrow> Inr (py_strip (re_sub_backslash_s [0x20] (text_at_line_105 U t1))))
   \<and> normalize_strip_only U x = normalize_name_for_blocking U x
   \<and> normalize_name_for_blocking U (PyStr s)
       = (case decode_literal_hex_sequences (PyStr s) of
            Inl e \<Rightarrow> Inl e
          | Inr t1 \<Rightarrow>
              Inr (py_join [0x20]
                     (filter (\<lambda>tok. tok \<notin> suffix_tokens) (py_split (text_at_line_99 U t1)))))
   \<and> py_strip (re_sub_backslash_s [0x20] (u ''a   b'')) = u ''a   b''
   \<and> strip_suffixes (PyStr (u ''a   b'')) = u ''a b''
   \<and> normalize_name_for_blocking unicode_excerpt (PyStr (u ''a   b'')) = Inr (u ''a b'')"
proof (intro conjI)
  show "re_sub_backslash_s [0x20] ([0x5C] @ u ''ssa'') = u '' a''"
    by simp
  show "re_sub_backslash_s [0x20] (u ''a   b'') = u ''a   b''"
    by simp
  show "re_sub_backslash_s [0x20] (text_at_line_99 U t1) = text_at_line_99 U t1"
    unfolding text_at_line_99_image
    by (rule re_sub_backslash_s_id) (use punct_image_clean in blast)
  show "re_sub_backslash_s [0x20] (text_at_line_105 U t1) = text_at_line_105 U t1"
    unfolding text_at_line_105_finish
    by (rule re_sub_backslash_s_id) (use finish_clean in blast)
  show "normalize_name_for_blocking U (PyStr s)
       = (case decode_literal_hex_sequences (PyStr s) of
            Inl e \<Rightarrow> Inl e
          | Inr t1 \<Rightarrow> Inr (py_strip (re_sub_backslash_s [0x20] (text_at_line_105 U t1))))"
    by (simp add: normalize_name_for_blocking_def text_at_line_105_def text_at_line_99_def
        Let_def split: sum.splits)
  show "normalize_strip_only U x = normalize_name_for_blocking U x"
  proof (cases x)
    case (PyStr s)
    then show ?thesis
      by (simp add: normalize_canonical normalize_strip_only_canonical)
  qed (simp_all add: normalize_name_for_blocking_def normalize_strip_only_def)
  show "normalize_name_for_blocking U (PyStr s)
       = (case decode_literal_hex_sequences (PyStr s) of
            Inl e \<Rightarrow> Inl e
          | Inr t1 \<Rightarrow>
              Inr (py_join [0x20]
                     (filter (\<lambda>tok. tok \<notin> suffix_tokens) (py_split (text_at_line_99 U t1)))))"
    by (simp add: normalize_canonical decode_spec text_at_line_99_image finish_def)
  show "py_strip (re_sub_backslash_s [0x20] (u ''a   b'')) = u ''a   b''"
    by (simp add: py_strip_def py_isspace_def)
  show "strip_suffixes (PyStr (u ''a   b'')) = u ''a b''"
    by (simp add: strip_suffixes_def py_split_def py_isspace_def suffix_tokens_def)
  show "normalize_name_for_blocking unicode_excerpt (PyStr (u ''a   b'')) = Inr (u ''a b'')"
    by (rule eval_space_run)
qed

end
